theory Spec2Isabelle
  imports Main "HOL-Library.Word" "HOL-Library.Sublist"
begin

unbundle bit_operations_syntax

section \<open>Connection management: the readiness handler and the polling reconciler\<close>

text \<open>
  A shallow embedding of \<^verbatim>\<open>src/connection.c\<close>: the I/O callback
  \<^verbatim>\<open>conn_fd_handler\<close> and the reconciler \<^verbatim>\<open>conn_set_polling\<close>.
  The file includes headers that are not part of the sources at hand, so the flag
  constants, the descriptor table and the collaborators called by the handler are
  taken as parameters.
\<close>

subsection \<open>Constants of the headers\<close>

text \<open>
  The \<^verbatim>\<open>CO_FL_*\<close> masks of \<^verbatim>\<open>conn->flags\<close> (an \<^verbatim>\<open>unsigned int\<close>)
  and the \<^verbatim>\<open>FD_POLL_*\<close> masks of \<^verbatim>\<open>fdtab[fd].ev\<close>. Their values are
  declared outside \<^verbatim>\<open>connection.c\<close>; every function below takes them as the
  parameter \<open>K\<close>. The width of the event slot is a parameter as well.
\<close>

record (overloaded) ('l::len) defs =
  CO_FL_ERROR :: "32 word"
  CO_FL_CONNECTED :: "32 word"
  CO_FL_WAIT_L4_CONN :: "32 word"
  CO_FL_WAIT_L6_CONN :: "32 word"
  CO_FL_NOTIFY_SI :: "32 word"
  CO_FL_SI_SEND_PROXY :: "32 word"
  CO_FL_ACCEPT_PROXY :: "32 word"
  CO_FL_HANDSHAKE :: "32 word"
  CO_FL_INIT_SESS :: "32 word"
  CO_FL_POLL_SOCK :: "32 word"
  CO_FL_CURR_RD_ENA :: "32 word"
  CO_FL_CURR_RD_POL :: "32 word"
  CO_FL_CURR_WR_ENA :: "32 word"
  CO_FL_CURR_WR_POL :: "32 word"
  FD_POLL_IN :: "'l word"
  FD_POLL_OUT :: "'l word"
  FD_POLL_ERR :: "'l word"
  FD_POLL_HUP :: "'l word"

subsection \<open>Data\<close>

text \<open>\<^verbatim>\<open>struct connection\<close>, reduced to the two members the file reads:
  \<^verbatim>\<open>flags\<close> and \<^verbatim>\<open>t.sock.fd\<close>.\<close>

record connection =
  flags :: "32 word"
  sock_fd :: int

text \<open>An entry of \<^verbatim>\<open>fdtab\<close>: the owner (a connection pointer, \<open>None\<close> for NULL)
  and the events reported by the poller.\<close>

record (overloaded) ('l::len) fdent =
  owner :: "nat option"
  ev :: "'l word"

text \<open>The memory the handler works on: the descriptor table, the connections by
  address, and everything else the collaborators keep (buffers, sockets, sessions).\<close>

record (overloaded) ('l::len, 'e) state =
  fdtab :: "int \<Rightarrow> 'l fdent"
  conns :: "nat \<Rightarrow> connection"
  ext :: 'e

definition get_flags :: "('l::len, 'e) state \<Rightarrow> nat \<Rightarrow> 32 word" where
  "get_flags s conn = flags (conns s conn)"

definition set_flags :: "nat \<Rightarrow> 32 word \<Rightarrow> ('l::len, 'e) state \<Rightarrow> ('l, 'e) state" where
  "set_flags conn v s = s\<lparr>conns := (conns s)(conn := (conns s conn)\<lparr>flags := v\<rparr>)\<rparr>"

definition get_ev :: "('l::len, 'e) state \<Rightarrow> int \<Rightarrow> 'l word" where
  "get_ev s fd = ev (fdtab s fd)"

definition set_ev :: "int \<Rightarrow> 'l word \<Rightarrow> ('l::len, 'e) state \<Rightarrow> ('l, 'e) state" where
  "set_ev fd v s = s\<lparr>fdtab := (fdtab s)(fd := (fdtab s fd)\<lparr>ev := v\<rparr>)\<rparr>"

subsection \<open>Calls that leave the file\<close>

text \<open>The six primitives of the event facility, each applied to a descriptor.\<close>

datatype fd_op =
    Fd_poll_recv int | Fd_want_recv int | Fd_stop_recv int
  | Fd_poll_send int | Fd_want_send int | Fd_stop_send int

text \<open>Every function the handler calls; the two handshake handlers and
  \<^verbatim>\<open>conn_session_complete\<close> with their flag argument.\<close>

datatype callee =
    Conn_recv_proxy "32 word"
  | Conn_si_send_proxy "32 word"
  | Conn_sock_stop_both
  | Conn_session_complete "32 word"
  | App_recv
  | App_send
  | Tcp_connect_probe
  | Conn_notify_si
  | Conn_cond_update_polling
  | Fd fd_op

text \<open>One call as the handler made it: the function, \<^verbatim>\<open>conn->flags\<close> at the
  moment of the call, and the value returned (0 for a \<^verbatim>\<open>void\<close> function).\<close>

datatype entry = Call (what: callee) (seen: "32 word") (result: int)

type_synonym ('l, 'e) ctx = "('l, 'e) state \<times> entry list"

text \<open>
  The collaborators, as functions of the connection pointer and the memory. They are
  arbitrary: a callback may change the flags, the event slot and its own data.
  \<open>polling_wanted\<close> gives the interest bits that \<^verbatim>\<open>conn_cond_update_polling\<close>
  hands to the reconciler.
\<close>

record (overloaded) ('l::len, 'e) callbacks =
  conn_recv_proxy :: "nat \<Rightarrow> 32 word \<Rightarrow> ('l, 'e) state \<Rightarrow> int \<times> ('l, 'e) state"
  conn_si_send_proxy :: "nat \<Rightarrow> 32 word \<Rightarrow> ('l, 'e) state \<Rightarrow> int \<times> ('l, 'e) state"
  conn_sock_stop_both :: "nat \<Rightarrow> ('l, 'e) state \<Rightarrow> ('l, 'e) state"
  conn_session_complete :: "nat \<Rightarrow> 32 word \<Rightarrow> ('l, 'e) state \<Rightarrow> int \<times> ('l, 'e) state"
  app_cb_recv :: "nat \<Rightarrow> ('l, 'e) state \<Rightarrow> ('l, 'e) state"
  app_cb_send :: "nat \<Rightarrow> ('l, 'e) state \<Rightarrow> ('l, 'e) state"
  tcp_connect_probe :: "nat \<Rightarrow> ('l, 'e) state \<Rightarrow> int \<times> ('l, 'e) state"
  conn_notify_si :: "nat \<Rightarrow> ('l, 'e) state \<Rightarrow> ('l, 'e) state"
  polling_wanted :: "32 word \<Rightarrow> 32 word"

text \<open>Running a collaborator and writing the call down.\<close>

definition invoke ::
  "callee \<Rightarrow> nat \<Rightarrow> (('l::len, 'e) state \<Rightarrow> int \<times> ('l, 'e) state) \<Rightarrow> ('l, 'e) ctx
     \<Rightarrow> int \<times> ('l, 'e) ctx" where
  "invoke who conn f st =
     (let r = f (fst st)
      in (fst r, (snd r, snd st @ [Call who (get_flags (fst st) conn) (fst r)])))"

definition invoke_void ::
  "callee \<Rightarrow> nat \<Rightarrow> (('l::len, 'e) state \<Rightarrow> ('l, 'e) state) \<Rightarrow> ('l, 'e) ctx \<Rightarrow> ('l, 'e) ctx" where
  "invoke_void who conn f st =
     (f (fst st), snd st @ [Call who (get_flags (fst st) conn) 0])"

subsection \<open>The reconciler\<close>

text \<open>
  \<^verbatim>\<open>conn_set_polling\<close> (lines 123 to 147): the calls to the event facility, in
  the order they are made, and the connection with the new \<^verbatim>\<open>CURR\<close> bits.
\<close>

definition conn_set_polling ::
  "('l::len) defs \<Rightarrow> connection \<Rightarrow> 32 word \<Rightarrow> fd_op list \<times> connection" where
  "conn_set_polling K c new =
     (let old = flags c;
          rd = (if old AND (CO_FL_CURR_RD_ENA K OR CO_FL_CURR_RD_POL K)
                     \<noteq> (CO_FL_CURR_RD_ENA K OR CO_FL_CURR_RD_POL K) \<and>
                   new AND (CO_FL_CURR_RD_ENA K OR CO_FL_CURR_RD_POL K)
                     = (CO_FL_CURR_RD_ENA K OR CO_FL_CURR_RD_POL K)
                then [Fd_poll_recv (sock_fd c)]
                else if old AND CO_FL_CURR_RD_ENA K = 0 \<and> new AND CO_FL_CURR_RD_ENA K \<noteq> 0
                then [Fd_want_recv (sock_fd c)]
                else if old AND CO_FL_CURR_RD_ENA K \<noteq> 0 \<and> new AND CO_FL_CURR_RD_ENA K = 0
                then [Fd_stop_recv (sock_fd c)]
                else []);
          wr = (if old AND (CO_FL_CURR_WR_ENA K OR CO_FL_CURR_WR_POL K)
                     \<noteq> (CO_FL_CURR_WR_ENA K OR CO_FL_CURR_WR_POL K) \<and>
                   new AND (CO_FL_CURR_WR_ENA K OR CO_FL_CURR_WR_POL K)
                     = (CO_FL_CURR_WR_ENA K OR CO_FL_CURR_WR_POL K)
                then [Fd_poll_send (sock_fd c)]
                else if old AND CO_FL_CURR_WR_ENA K = 0 \<and> new AND CO_FL_CURR_WR_ENA K \<noteq> 0
                then [Fd_want_send (sock_fd c)]
                else if old AND CO_FL_CURR_WR_ENA K \<noteq> 0 \<and> new AND CO_FL_CURR_WR_ENA K = 0
                then [Fd_stop_send (sock_fd c)]
                else []);
          c1 = c\<lparr>flags := flags c AND NOT (CO_FL_CURR_WR_POL K OR CO_FL_CURR_WR_ENA K
                                              OR CO_FL_CURR_RD_POL K OR CO_FL_CURR_RD_ENA K)\<rparr>;
          c2 = c1\<lparr>flags := flags c1 OR (new AND (CO_FL_CURR_WR_POL K OR CO_FL_CURR_WR_ENA K
                                              OR CO_FL_CURR_RD_POL K OR CO_FL_CURR_RD_ENA K))\<rparr>
      in (rd @ wr, c2))"

definition curr_mask :: "('l::len) defs \<Rightarrow> 32 word" where
  "curr_mask K = CO_FL_CURR_WR_POL K OR CO_FL_CURR_WR_ENA K
                   OR CO_FL_CURR_RD_POL K OR CO_FL_CURR_RD_ENA K"

text \<open>
  Modelled from the spec: \<^verbatim>\<open>conn_cond_update_polling\<close> is declared in
  \<^verbatim>\<open>proto/connection.h\<close>, which is not among the sources. The spec (section 4.5,
  step 9) says: "Call the reconciler with the connection's current desired interests."
  The desired interests are computed from the flags by \<open>polling_wanted\<close>.
\<close>

definition conn_cond_update_polling ::
  "('l::len) defs \<Rightarrow> ('l, 'e) callbacks \<Rightarrow> nat \<Rightarrow> ('l, 'e) ctx \<Rightarrow> ('l, 'e) ctx" where
  "conn_cond_update_polling K cb conn st =
     (let s = fst st;
          r = conn_set_polling K (conns s conn) (polling_wanted cb (get_flags s conn))
      in (s\<lparr>conns := (conns s)(conn := snd r)\<rparr>,
          snd st @ Call Conn_cond_update_polling (get_flags s conn) 0
                 # map (\<lambda>op. Call (Fd op) (get_flags s conn) 0) (fst r)))"

subsection \<open>The readiness handler\<close>

text \<open>Where control goes after a block of \<^verbatim>\<open>conn_fd_handler\<close>: on to the next
  statement, to one of the two labels, or out of the function.\<close>

datatype 'a ctl = Next 'a | Goto_leave 'a | Goto_process_handshake 'a | Return_0 'a

text \<open>Lines 42 to 44 without the \<^verbatim>\<open>goto\<close>: the PROXY header is received if
  \<^verbatim>\<open>CO_FL_ACCEPT_PROXY\<close> is pending. The value is what the handler returned, or 1
  when it was not called.\<close>

definition accept_proxy_step ::
  "('l::len) defs \<Rightarrow> ('l, 'e) callbacks \<Rightarrow> nat \<Rightarrow> ('l, 'e) ctx \<Rightarrow> int \<times> ('l, 'e) ctx" where
  "accept_proxy_step K cb conn st =
     (if get_flags (fst st) conn AND CO_FL_ACCEPT_PROXY K \<noteq> 0
      then invoke (Conn_recv_proxy (CO_FL_ACCEPT_PROXY K)) conn
             (conn_recv_proxy cb conn (CO_FL_ACCEPT_PROXY K)) st
      else (1, st))"

text \<open>Lines 46 to 48 without the \<^verbatim>\<open>goto\<close>, in the same way.\<close>

definition send_proxy_step ::
  "('l::len) defs \<Rightarrow> ('l, 'e) callbacks \<Rightarrow> nat \<Rightarrow> ('l, 'e) ctx \<Rightarrow> int \<times> ('l, 'e) ctx" where
  "send_proxy_step K cb conn st =
     (if get_flags (fst st) conn AND CO_FL_SI_SEND_PROXY K \<noteq> 0
      then invoke (Conn_si_send_proxy (CO_FL_SI_SEND_PROXY K)) conn
             (conn_si_send_proxy cb conn (CO_FL_SI_SEND_PROXY K)) st
      else (1, st))"

text \<open>The body of the \<^verbatim>\<open>while\<close> loop, lines 39 to 48.\<close>

definition handshake_body ::
  "('l::len) defs \<Rightarrow> ('l, 'e) callbacks \<Rightarrow> nat \<Rightarrow> ('l, 'e) ctx \<Rightarrow> ('l, 'e) ctx ctl" where
  "handshake_body K cb conn st =
     (if get_flags (fst st) conn AND CO_FL_ERROR K \<noteq> 0 then Goto_leave st
      else
        let r1 = accept_proxy_step K cb conn st
        in if fst r1 = 0 then Goto_leave (snd r1)
           else
             let r2 = send_proxy_step K cb conn (snd r1)
             in if fst r2 = 0 then Goto_leave (snd r2) else Next (snd r2))"

text \<open>The \<^verbatim>\<open>while\<close> loop, lines 38 to 49. It runs as long as the handlers keep a
  handshake bit set and return non-zero, so it need not end: \<open>None\<close> is a loop that
  never exits.\<close>

partial_function (option) handshake_loop ::
  "('l::len) defs \<Rightarrow> ('l, 'e) callbacks \<Rightarrow> nat \<Rightarrow> ('l, 'e) ctx \<Rightarrow> ('l, 'e) ctx ctl option" where
  "handshake_loop K cb conn st =
     (if get_flags (fst st) conn AND CO_FL_HANDSHAKE K \<noteq> 0
      then (case handshake_body K cb conn st of
              Next st' \<Rightarrow> handshake_loop K cb conn st'
            | other \<Rightarrow> Some other)
      else Some (Next st))"

text \<open>Lines 52 to 61: handshake polling is switched off, and a pending session is
  completed; a negative result leaves the function at once.\<close>

definition enter_data_phase ::
  "('l::len) defs \<Rightarrow> ('l, 'e) callbacks \<Rightarrow> nat \<Rightarrow> ('l, 'e) ctx \<Rightarrow> ('l, 'e) ctx ctl" where
  "enter_data_phase K cb conn st =
     (let st1 = (if get_flags (fst st) conn AND CO_FL_POLL_SOCK K = 0
                 then invoke_void Conn_sock_stop_both conn (conn_sock_stop_both cb conn) st
                 else st)
      in if get_flags (fst st1) conn AND CO_FL_INIT_SESS K \<noteq> 0
         then (let r = invoke (Conn_session_complete (CO_FL_INIT_SESS K)) conn
                         (conn_session_complete cb conn (CO_FL_INIT_SESS K)) st1
               in if fst r < 0 then Return_0 (snd r) else Next (snd r))
         else Next st1)"

text \<open>Lines 63 and 64: the receive callback, if the poller reported input, a hang-up
  or an error.\<close>

definition recv_step ::
  "('l::len) defs \<Rightarrow> ('l, 'e) callbacks \<Rightarrow> int \<Rightarrow> nat \<Rightarrow> ('l, 'e) ctx \<Rightarrow> ('l, 'e) ctx" where
  "recv_step K cb fd conn st =
     (if get_ev (fst st) fd AND (FD_POLL_IN K OR FD_POLL_HUP K OR FD_POLL_ERR K) \<noteq> 0
      then invoke_void App_recv conn (app_cb_recv cb conn) st
      else st)"

text \<open>Lines 75 and 76: the send callback, if the poller reported output or an error.\<close>

definition send_step ::
  "('l::len) defs \<Rightarrow> ('l, 'e) callbacks \<Rightarrow> int \<Rightarrow> nat \<Rightarrow> ('l, 'e) ctx \<Rightarrow> ('l, 'e) ctx" where
  "send_step K cb fd conn st =
     (if get_ev (fst st) fd AND (FD_POLL_OUT K OR FD_POLL_ERR K) \<noteq> 0
      then invoke_void App_send conn (app_cb_send cb conn) st
      else st)"

text \<open>Lines 63 to 93: the two callbacks, each followed by the tests of
  \<^verbatim>\<open>CO_FL_ERROR\<close> and \<^verbatim>\<open>CO_FL_HANDSHAKE\<close>, and the connect probe. \<open>Next\<close>
  is falling through to the label \<^verbatim>\<open>leave\<close>.\<close>

definition data_phase ::
  "('l::len) defs \<Rightarrow> ('l, 'e) callbacks \<Rightarrow> int \<Rightarrow> nat \<Rightarrow> ('l, 'e) ctx \<Rightarrow> ('l, 'e) ctx ctl" where
  "data_phase K cb fd conn st =
     (let st1 = recv_step K cb fd conn st
      in if get_flags (fst st1) conn AND CO_FL_ERROR K \<noteq> 0 then Goto_leave st1
         else if get_flags (fst st1) conn AND CO_FL_HANDSHAKE K \<noteq> 0
         then Goto_process_handshake st1
         else
           let st2 = send_step K cb fd conn st1
           in if get_flags (fst st2) conn AND CO_FL_ERROR K \<noteq> 0 then Goto_leave st2
              else if get_flags (fst st2) conn AND CO_FL_HANDSHAKE K \<noteq> 0
              then Goto_process_handshake st2
              else if get_flags (fst st2) conn AND CO_FL_WAIT_L4_CONN K \<noteq> 0
              then (let r = invoke Tcp_connect_probe conn (tcp_connect_probe cb conn) st2
                    in if fst r = 0 then Goto_leave (snd r) else Next (snd r))
              else Next st2)"

text \<open>Lines 103 and 104: the stream interface is notified if it asked for it.\<close>

definition notify_step ::
  "('l::len) defs \<Rightarrow> ('l, 'e) callbacks \<Rightarrow> nat \<Rightarrow> ('l, 'e) ctx \<Rightarrow> ('l, 'e) ctx" where
  "notify_step K cb conn st =
     (if get_flags (fst st) conn AND CO_FL_NOTIFY_SI K \<noteq> 0
      then invoke_void Conn_notify_si conn (conn_notify_si cb conn) st
      else st)"

text \<open>From the label \<^verbatim>\<open>leave\<close> to the end, lines 95 to 115. The result is the
  value returned, the memory and the calls made.\<close>

definition leave ::
  "('l::len) defs \<Rightarrow> ('l, 'e) callbacks \<Rightarrow> int \<Rightarrow> nat \<Rightarrow> ('l, 'e) ctx \<Rightarrow> int \<times> ('l, 'e) ctx" where
  "leave K cb fd conn st =
     (if get_flags (fst st) conn AND (CO_FL_ERROR K OR CO_FL_INIT_SESS K)
           = (CO_FL_ERROR K OR CO_FL_INIT_SESS K)
      then
        (let st1 = (set_flags conn (get_flags (fst st) conn OR CO_FL_ERROR K) (fst st), snd st);
             r = invoke (Conn_session_complete (CO_FL_INIT_SESS K)) conn
                   (conn_session_complete cb conn (CO_FL_INIT_SESS K)) st1
         in (0, snd r))
      else
        (let st1 = notify_step K cb conn st;
             st2 = (if get_flags (fst st1) conn AND
                         (CO_FL_WAIT_L4_CONN K OR CO_FL_WAIT_L6_CONN K OR CO_FL_CONNECTED K) = 0
                    then (set_flags conn (get_flags (fst st1) conn OR CO_FL_CONNECTED K) (fst st1),
                          snd st1)
                    else st1);
             st3 = (set_ev fd (get_ev (fst st2) fd AND
                       NOT (FD_POLL_IN K OR FD_POLL_OUT K OR FD_POLL_HUP K OR FD_POLL_ERR K))
                     (fst st2), snd st2)
         in (0, conn_cond_update_polling K cb conn st3)))"

text \<open>From the label \<^verbatim>\<open>process_handshake\<close> on, lines 31 to 115. The two
  \<^verbatim>\<open>goto process_handshake\<close> of the data phase come back here.\<close>

partial_function (option) process_handshake ::
  "('l::len) defs \<Rightarrow> ('l, 'e) callbacks \<Rightarrow> int \<Rightarrow> nat \<Rightarrow> ('l, 'e) ctx
     \<Rightarrow> (int \<times> ('l, 'e) ctx) option" where
  "process_handshake K cb fd conn st =
     Option.bind (handshake_loop K cb conn st) (\<lambda>c.
       case c of
         Next st1 \<Rightarrow>
           (case enter_data_phase K cb conn st1 of
              Next st2 \<Rightarrow>
                (case data_phase K cb fd conn st2 of
                   Goto_process_handshake st3 \<Rightarrow> process_handshake K cb fd conn st3
                 | Return_0 st3 \<Rightarrow> Some (0, st3)
                 | Goto_leave st3 \<Rightarrow> Some (leave K cb fd conn st3)
                 | Next st3 \<Rightarrow> Some (leave K cb fd conn st3))
            | Goto_process_handshake st2 \<Rightarrow> process_handshake K cb fd conn st2
            | Return_0 st2 \<Rightarrow> Some (0, st2)
            | Goto_leave st2 \<Rightarrow> Some (leave K cb fd conn st2))
       | Goto_process_handshake st1 \<Rightarrow> process_handshake K cb fd conn st1
       | Return_0 st1 \<Rightarrow> Some (0, st1)
       | Goto_leave st1 \<Rightarrow> Some (leave K cb fd conn st1))"

text \<open>\<^verbatim>\<open>conn_fd_handler\<close>, lines 24 to 116. The calls are counted from an empty
  list.\<close>

definition conn_fd_handler ::
  "('l::len) defs \<Rightarrow> ('l, 'e) callbacks \<Rightarrow> int \<Rightarrow> ('l, 'e) state
     \<Rightarrow> (int \<times> ('l, 'e) ctx) option" where
  "conn_fd_handler K cb fd s =
     (case owner (fdtab s fd) of
        None \<Rightarrow> Some (0, (s, []))
      | Some conn \<Rightarrow> process_handshake K cb fd conn (s, []))"

subsection \<open>The words of the specification\<close>

text \<open>A flag proper: a mask with one bit.\<close>

definition is_flag :: "32 word \<Rightarrow> bool" where
  "is_flag w = (\<exists>n \<in> set [0..<32]. w = 2 ^ n)"

text \<open>The \<open>(ENA, POL)\<close> pair of a direction, read off a flags word.\<close>

definition rd_pair :: "('l::len) defs \<Rightarrow> 32 word \<Rightarrow> bool \<times> bool" where
  "rd_pair K x = (x AND CO_FL_CURR_RD_ENA K \<noteq> 0, x AND CO_FL_CURR_RD_POL K \<noteq> 0)"

definition wr_pair :: "('l::len) defs \<Rightarrow> 32 word \<Rightarrow> bool \<times> bool" where
  "wr_pair K x = (x AND CO_FL_CURR_WR_ENA K \<noteq> 0, x AND CO_FL_CURR_WR_POL K \<noteq> 0)"

text \<open>Section 4.2 of the specification, one direction: poll "when transitioning to the
  \<open>(ENA, POL) = 11\<close> state from anything else", want "when \<open>ENA\<close> transitions 0 to 1"
  and the pair does not become 11, stop "when \<open>ENA\<close> transitions 1 to 0", "nothing when
  no relevant edge occurred".\<close>

definition spec_poll :: "bool \<times> bool \<Rightarrow> bool \<times> bool \<Rightarrow> bool" where
  "spec_poll old new = (new = (True, True) \<and> old \<noteq> (True, True))"

definition spec_want :: "bool \<times> bool \<Rightarrow> bool \<times> bool \<Rightarrow> bool" where
  "spec_want old new = (\<not> fst old \<and> fst new \<and> new \<noteq> (True, True))"

definition spec_stop :: "bool \<times> bool \<Rightarrow> bool \<times> bool \<Rightarrow> bool" where
  "spec_stop old new = (fst old \<and> \<not> fst new)"

definition spec_calls :: "bool \<times> bool \<Rightarrow> bool \<times> bool \<Rightarrow> 'a \<Rightarrow> 'a \<Rightarrow> 'a \<Rightarrow> 'a list" where
  "spec_calls old new poll want stop =
     (if spec_poll old new then [poll] else []) @
     (if spec_want old new then [want] else []) @
     (if spec_stop old new then [stop] else [])"

text \<open>The calls made between two points of a run.\<close>

definition added :: "('l::len, 'e) ctx \<Rightarrow> ('l, 'e) ctx \<Rightarrow> entry list" where
  "added st st' = drop (length (snd st)) (snd st')"

fun ctl_arg :: "'a ctl \<Rightarrow> 'a" where
  "ctl_arg (Next x) = x"
| "ctl_arg (Goto_leave x) = x"
| "ctl_arg (Goto_process_handshake x) = x"
| "ctl_arg (Return_0 x) = x"

text \<open>A call of one of the two handshake sub-handlers.\<close>

definition hs_call :: "('l::len) defs \<Rightarrow> entry \<Rightarrow> bool" where
  "hs_call K e = (what e = Conn_recv_proxy (CO_FL_ACCEPT_PROXY K)
                  \<or> what e = Conn_si_send_proxy (CO_FL_SI_SEND_PROXY K))"

text \<open>A call made by \<^verbatim>\<open>conn_cond_update_polling\<close>: the call itself or one of the
  primitives of the event facility.\<close>

definition polling_call :: "entry \<Rightarrow> bool" where
  "polling_call e = (case what e of Conn_cond_update_polling \<Rightarrow> True | Fd op \<Rightarrow> True | _ \<Rightarrow> False)"

text \<open>A call of the data phase.\<close>

definition data_call :: "entry \<Rightarrow> bool" where
  "data_call e = (what e = App_recv \<or> what e = App_send \<or> what e = Tcp_connect_probe)"

text \<open>The two tests that follow each callback of the data phase (lines 66 to 73 and 78
  to 85) let the data phase go on: no error is latched and no handshake is pending.\<close>

definition data_ok :: "('l::len) defs \<Rightarrow> nat \<Rightarrow> ('l, 'e) ctx \<Rightarrow> bool" where
  "data_ok K conn st =
     (get_flags (fst st) conn AND CO_FL_ERROR K = 0 \<and>
      get_flags (fst st) conn AND CO_FL_HANDSHAKE K = 0)"

text \<open>What the flags are when a call of either phase is made: the PROXY header is
  received with a handshake pending and no error; socket polling is stopped, data is
  sent and the connection is probed with no handshake pending, the last two with no
  error either.\<close>

definition phase_order :: "('l::len) defs \<Rightarrow> entry \<Rightarrow> bool" where
  "phase_order K e =
     (case what e of
        Conn_recv_proxy f \<Rightarrow>
          seen e AND CO_FL_HANDSHAKE K \<noteq> 0 \<and> seen e AND CO_FL_ERROR K = 0
      | Conn_sock_stop_both \<Rightarrow> seen e AND CO_FL_HANDSHAKE K = 0
      | App_send \<Rightarrow> seen e AND CO_FL_HANDSHAKE K = 0 \<and> seen e AND CO_FL_ERROR K = 0
      | Tcp_connect_probe \<Rightarrow> seen e AND CO_FL_HANDSHAKE K = 0 \<and> seen e AND CO_FL_ERROR K = 0
      | _ \<Rightarrow> True)"

text \<open>From one point of a run to a later one, calls were only added, each with the flags
  its phase requires.\<close>

definition ordered_ext :: "('l::len) defs \<Rightarrow> ('l, 'e) ctx \<Rightarrow> ('l, 'e) ctx \<Rightarrow> bool" where
  "ordered_ext K st st' = (\<exists>xs. snd st' = snd st @ xs \<and> list_all (phase_order K) xs)"

text \<open>Section 4.3 of the specification: "The loop exits when either the composite
  \<open>HANDSHAKE\<close> bit clears, \<open>ERROR\<close> latches, or a sub-handler reports not done." The
  first exit goes on with the function; at the second the loop test has just seen the
  handshake bit and the body the error bit; at the third the last call made is a
  sub-handler that returned 0. The last two go to \<^verbatim>\<open>leave\<close>.\<close>

definition loop_exit :: "('l::len) defs \<Rightarrow> nat \<Rightarrow> ('l, 'e) ctx ctl \<Rightarrow> bool" where
  "loop_exit K conn c =
     (case c of
        Next st' \<Rightarrow> get_flags (fst st') conn AND CO_FL_HANDSHAKE K = 0
      | Goto_leave st' \<Rightarrow>
          (get_flags (fst st') conn AND CO_FL_HANDSHAKE K \<noteq> 0 \<and>
           get_flags (fst st') conn AND CO_FL_ERROR K \<noteq> 0)
          \<or> (snd st' \<noteq> [] \<and> result (last (snd st')) = 0 \<and> hs_call K (last (snd st')))
      | Goto_process_handshake st' \<Rightarrow> False
      | Return_0 st' \<Rightarrow> False)"

text \<open>The two ways a cycle on an owned descriptor ends: through the label
  \<^verbatim>\<open>leave\<close>, or at line 61 after \<^verbatim>\<open>conn_session_complete\<close> returned a
  negative value.\<close>

definition cycle_end ::
  "('l::len) defs \<Rightarrow> ('l, 'e) callbacks \<Rightarrow> int \<Rightarrow> nat \<Rightarrow> ('l, 'e) ctx
     \<Rightarrow> int \<times> ('l, 'e) ctx \<Rightarrow> bool" where
  "cycle_end K cb fd conn st' res =
     (res = leave K cb fd conn st'
      \<or> (res = (0, st') \<and> snd st' \<noteq> [] \<and>
          what (last (snd st')) = Conn_session_complete (CO_FL_INIT_SESS K) \<and>
          result (last (snd st')) < 0 \<and>
          (\<exists>s0. fst st' = snd (conn_session_complete cb conn (CO_FL_INIT_SESS K) s0))))"

text \<open>The mask of the four events that the handler consumes.\<close>

definition poll_mask :: "('l::len) defs \<Rightarrow> 'l word" where
  "poll_mask K = FD_POLL_IN K OR FD_POLL_OUT K OR FD_POLL_HUP K OR FD_POLL_ERR K"

text \<open>The test of line 97.\<close>

definition embryonic_error :: "('l::len) defs \<Rightarrow> 32 word \<Rightarrow> bool" where
  "embryonic_error K f =
     (f AND (CO_FL_ERROR K OR CO_FL_INIT_SESS K) = (CO_FL_ERROR K OR CO_FL_INIT_SESS K))"

text \<open>Whether connection \<open>p\<close> is marked as established.\<close>

definition connected :: "('l::len) defs \<Rightarrow> nat \<Rightarrow> ('l, 'e) state \<Rightarrow> bool" where
  "connected K p s = (get_flags s p AND CO_FL_CONNECTED K \<noteq> 0)"

text \<open>Between two points of a run the established bit of \<open>p\<close> did not change.\<close>

definition same_connected :: "('l::len) defs \<Rightarrow> nat \<Rightarrow> ('l, 'e) ctx \<Rightarrow> ('l, 'e) ctx \<Rightarrow> bool" where
  "same_connected K p st st' =
     (get_flags (fst st') p AND CO_FL_CONNECTED K = get_flags (fst st) p AND CO_FL_CONNECTED K)"

text \<open>Collaborators that do not write \<^verbatim>\<open>fdtab[fd].ev\<close>: what is left is what the
  handler itself does to the slot.\<close>

definition keeps_events :: "('l::len, 'e) callbacks \<Rightarrow> int \<Rightarrow> bool" where
  "keeps_events cb fd =
     ((\<forall>c f s. get_ev (snd (conn_recv_proxy cb c f s)) fd = get_ev s fd) \<and>
      (\<forall>c f s. get_ev (snd (conn_si_send_proxy cb c f s)) fd = get_ev s fd) \<and>
      (\<forall>c s. get_ev (conn_sock_stop_both cb c s) fd = get_ev s fd) \<and>
      (\<forall>c f s. get_ev (snd (conn_session_complete cb c f s)) fd = get_ev s fd) \<and>
      (\<forall>c s. get_ev (app_cb_recv cb c s) fd = get_ev s fd) \<and>
      (\<forall>c s. get_ev (app_cb_send cb c s) fd = get_ev s fd) \<and>
      (\<forall>c s. get_ev (snd (tcp_connect_probe cb c s)) fd = get_ev s fd) \<and>
      (\<forall>c s. get_ev (conn_notify_si cb c s) fd = get_ev s fd))"

text \<open>Between two points of a run the event slot of \<open>fd\<close> did not change.\<close>

definition same_events :: "int \<Rightarrow> ('l::len, 'e) ctx \<Rightarrow> ('l, 'e) ctx \<Rightarrow> bool" where
  "same_events fd st st' = (get_ev (fst st') fd = get_ev (fst st) fd)"

text \<open>The two calls between the handshake loop and the receive callback, lines 52 to
  61.\<close>

definition preamble_call :: "entry \<Rightarrow> bool" where
  "preamble_call e =
     (case what e of Conn_sock_stop_both \<Rightarrow> True | Conn_session_complete f \<Rightarrow> True | _ \<Rightarrow> False)"

text \<open>Reading the calls of a cycle from the first on: \<open>ready\<close> says that a call was made
  with no handshake pending in the flags and that only calls of lines 52 to 61 were
  made since.\<close>

definition ready_step :: "('l::len) defs \<Rightarrow> bool \<Rightarrow> entry \<Rightarrow> bool" where
  "ready_step K ready e =
     (if preamble_call e then ready \<or> seen e AND CO_FL_HANDSHAKE K = 0 else False)"

text \<open>The handshake comes before the data: every call of the receive callback is made
  with no handshake pending in the flags, or after a call made so with only calls of
  lines 52 to 61 in between.\<close>

fun recv_placed :: "('l::len) defs \<Rightarrow> bool \<Rightarrow> entry list \<Rightarrow> bool" where
  "recv_placed K ready [] = True"
| "recv_placed K ready (e # es) =
     ((if what e = App_recv then ready \<or> seen e AND CO_FL_HANDSHAKE K = 0 else True)
      \<and> recv_placed K (ready_step K ready e) es)"

text \<open>From one point of a run to a later one, calls were only added, and the receive
  callback was called in its place.\<close>

definition recv_ext :: "('l::len) defs \<Rightarrow> ('l, 'e) ctx \<Rightarrow> ('l, 'e) ctx \<Rightarrow> bool" where
  "recv_ext K st st' =
     (\<exists>xs. snd st' = snd st @ xs \<and> recv_placed K (foldl (ready_step K) False (snd st)) xs)"

text \<open>Collaborators that leave \<^verbatim>\<open>CO_FL_CONNECTED\<close> alone, on every connection:
  what is left is what the file itself does to the bit.\<close>

definition keeps_connected :: "('l::len) defs \<Rightarrow> ('l, 'e) callbacks \<Rightarrow> bool" where
  "keeps_connected K cb =
     ((\<forall>c f s p. get_flags (snd (conn_recv_proxy cb c f s)) p AND CO_FL_CONNECTED K
                  = get_flags s p AND CO_FL_CONNECTED K) \<and>
      (\<forall>c f s p. get_flags (snd (conn_si_send_proxy cb c f s)) p AND CO_FL_CONNECTED K
                  = get_flags s p AND CO_FL_CONNECTED K) \<and>
      (\<forall>c s p. get_flags (conn_sock_stop_both cb c s) p AND CO_FL_CONNECTED K
                  = get_flags s p AND CO_FL_CONNECTED K) \<and>
      (\<forall>c f s p. get_flags (snd (conn_session_complete cb c f s)) p AND CO_FL_CONNECTED K
                  = get_flags s p AND CO_FL_CONNECTED K) \<and>
      (\<forall>c s p. get_flags (app_cb_recv cb c s) p AND CO_FL_CONNECTED K
                  = get_flags s p AND CO_FL_CONNECTED K) \<and>
      (\<forall>c s p. get_flags (app_cb_send cb c s) p AND CO_FL_CONNECTED K
                  = get_flags s p AND CO_FL_CONNECTED K) \<and>
      (\<forall>c s p. get_flags (snd (tcp_connect_probe cb c s)) p AND CO_FL_CONNECTED K
                  = get_flags s p AND CO_FL_CONNECTED K) \<and>
      (\<forall>c s p. get_flags (conn_notify_si cb c s) p AND CO_FL_CONNECTED K
                  = get_flags s p AND CO_FL_CONNECTED K))"

text \<open>
  Modelled from the spec: the event facility that calls the handler is not among the
  sources. Section 4.5 says the handler is "called by the event facility with a
  descriptor", and section 6 that the slot \<^verbatim>\<open>fdtab[fd].ev\<close> carries the reported
  bits. A sequence of readiness cycles on \<open>fd\<close>: for each reported event mask, it is
  stored in the slot and the handler runs. The result is the memory after each cycle,
  or \<open>None\<close> if a cycle does not return.
\<close>

fun run_cycles ::
  "('l::len) defs \<Rightarrow> ('l, 'e) callbacks \<Rightarrow> int \<Rightarrow> 'l word list \<Rightarrow> ('l, 'e) state
     \<Rightarrow> ('l, 'e) state list option" where
  "run_cycles K cb fd [] s = Some []"
| "run_cycles K cb fd (e # es) s =
     (case conn_fd_handler K cb fd (set_ev fd e s) of
        None \<Rightarrow> None
      | Some res \<Rightarrow>
          (case run_cycles K cb fd es (fst (snd res)) of
             None \<Rightarrow> None
           | Some ss \<Rightarrow> Some (fst (snd res) # ss)))"

subsection \<open>Concrete inputs\<close>

text \<open>A layout of the masks in which every flag is a bit of its own, the handshake mask
  is the two handshake kinds, and socket polling is the handshake or one of the two
  waits.\<close>

definition hdr :: "8 defs" where
  "hdr = \<lparr>CO_FL_ERROR = 0x00000001, CO_FL_CONNECTED = 0x00000002,
          CO_FL_WAIT_L4_CONN = 0x00000004, CO_FL_WAIT_L6_CONN = 0x00000008,
          CO_FL_NOTIFY_SI = 0x00000010, CO_FL_SI_SEND_PROXY = 0x00000020,
          CO_FL_ACCEPT_PROXY = 0x00000080, CO_FL_HANDSHAKE = 0x000000A0,
          CO_FL_INIT_SESS = 0x00000800, CO_FL_POLL_SOCK = 0x000000AC,
          CO_FL_CURR_RD_ENA = 0x00100000, CO_FL_CURR_RD_POL = 0x00200000,
          CO_FL_CURR_WR_ENA = 0x00400000, CO_FL_CURR_WR_POL = 0x00800000,
          FD_POLL_IN = 0x01, FD_POLL_OUT = 0x04, FD_POLL_ERR = 0x08, FD_POLL_HUP = 0x10\<rparr>"

text \<open>A connection on descriptor 7 that is registered for reading, without polling.\<close>

definition c_reading :: connection where
  "c_reading = \<lparr>flags = 0x00100000, sock_fd = 7\<rparr>"

text \<open>Collaborators that do nothing and report success; read interest is wanted.\<close>

definition cb_quiet :: "(8, unit) callbacks" where
  "cb_quiet = \<lparr>conn_recv_proxy = (\<lambda>conn flag s. (1, s)),
               conn_si_send_proxy = (\<lambda>conn flag s. (1, s)),
               conn_sock_stop_both = (\<lambda>conn s. s),
               conn_session_complete = (\<lambda>conn flag s. (0, s)),
               app_cb_recv = (\<lambda>conn s. s),
               app_cb_send = (\<lambda>conn s. s),
               tcp_connect_probe = (\<lambda>conn s. (1, s)),
               conn_notify_si = (\<lambda>conn s. s),
               polling_wanted = (\<lambda>f. 0x00100000)\<rparr>"

text \<open>The same, with a session constructor that fails.\<close>

definition cb_refuse :: "(8, unit) callbacks" where
  "cb_refuse = cb_quiet\<lparr>conn_session_complete := (\<lambda>conn flag s. (- 1, s))\<rparr>"

text \<open>The same as \<open>cb_quiet\<close>, with a PROXY parser that latches the error (bit 0 in
  \<open>hdr\<close>), clears its own bit and still returns 1.\<close>

definition cb_latch :: "(8, unit) callbacks" where
  "cb_latch = cb_quiet\<lparr>conn_recv_proxy :=
      (\<lambda>conn flag s. (1, set_flags conn ((get_flags s conn OR 0x00000001) AND NOT flag) s))\<rparr>"

text \<open>The same as \<open>cb_quiet\<close>, with a PROXY parser that latches the error and
  returns 0.\<close>

definition cb_bad_proxy :: "(8, unit) callbacks" where
  "cb_bad_proxy = cb_quiet\<lparr>conn_recv_proxy :=
      (\<lambda>conn flag s. (0, set_flags conn (get_flags s conn OR 0x00000001) s))\<rparr>"

text \<open>The same as \<open>cb_quiet\<close>, with handshake handlers that succeed: each clears its
  bit and returns 1.\<close>

definition cb_proxy :: "(8, unit) callbacks" where
  "cb_proxy = cb_quiet\<lparr>
      conn_recv_proxy := (\<lambda>conn flag s. (1, set_flags conn (get_flags s conn AND NOT flag) s)),
      conn_si_send_proxy := (\<lambda>conn flag s. (1, set_flags conn (get_flags s conn AND NOT flag) s))\<rparr>"

text \<open>The same as \<open>cb_proxy\<close>, with a receive callback that asks once for a new
  handshake: when bit 12 of the flags is set, it clears it and raises
  \<^verbatim>\<open>CO_FL_SI_SEND_PROXY\<close> (bit 5 in \<open>hdr\<close>).\<close>

definition cb_renego :: "(8, unit) callbacks" where
  "cb_renego = cb_proxy\<lparr>app_cb_recv :=
      (\<lambda>conn s. if get_flags s conn AND 0x00001000 \<noteq> 0
                 then set_flags conn ((get_flags s conn AND NOT 0x00001000) OR 0x00000020) s
                 else s)\<rparr>"

text \<open>The same as \<open>cb_quiet\<close>, with a receive callback that latches the error.\<close>

definition cb_recv_err :: "(8, unit) callbacks" where
  "cb_recv_err = cb_quiet\<lparr>app_cb_recv :=
      (\<lambda>conn s. set_flags conn (get_flags s conn OR 0x00000001) s)\<rparr>"

text \<open>The same as \<open>cb_quiet\<close>, with a send callback that latches the error.\<close>

definition cb_send_err :: "(8, unit) callbacks" where
  "cb_send_err = cb_quiet\<lparr>app_cb_send :=
      (\<lambda>conn s. set_flags conn (get_flags s conn OR 0x00000001) s)\<rparr>"

text \<open>The same as \<open>cb_proxy\<close>, with a send callback that asks once for a new handshake,
  as the receive callback of \<open>cb_renego\<close> does.\<close>

definition cb_send_renego :: "(8, unit) callbacks" where
  "cb_send_renego = cb_proxy\<lparr>app_cb_send :=
      (\<lambda>conn s. if get_flags s conn AND 0x00001000 \<noteq> 0
                 then set_flags conn ((get_flags s conn AND NOT 0x00001000) OR 0x00000020) s
                 else s)\<rparr>"

text \<open>The same as \<open>cb_quiet\<close>, with a connect probe that reports that the connection is
  not established yet.\<close>

definition cb_no_conn :: "(8, unit) callbacks" where
  "cb_no_conn = cb_quiet\<lparr>tcp_connect_probe := (\<lambda>conn s. (0, s))\<rparr>"

text \<open>A memory in which every descriptor has owner \<open>p\<close> and events \<open>e\<close>, and every
  connection has flags \<open>f\<close> and descriptor 7.\<close>

definition s_at :: "nat option \<Rightarrow> 8 word \<Rightarrow> 32 word \<Rightarrow> (8, unit) state" where
  "s_at p e f = \<lparr>fdtab = (\<lambda>fd. \<lparr>owner = p, ev = e\<rparr>),
                 conns = (\<lambda>c. \<lparr>flags = f, sock_fd = 7\<rparr>), ext = ()\<rparr>"

section \<open>Properties of the reconciler\<close>

lemma exp_test:
  "n < 32 \<Longrightarrow> (x AND 2 ^ n = 0) = (x AND 2 ^ n \<noteq> (2 ^ n :: 32 word))"
  by (auto simp: bit_eq_iff[where ?'a = "32 word"] bit_and_iff bit_exp_iff)

lemma is_flag_test: "is_flag w \<Longrightarrow> (x AND w = 0) = (x AND w \<noteq> w)"
  unfolding is_flag_def using exp_test by auto

lemma is_flag_exp: "n < 32 \<Longrightarrow> is_flag (2 ^ n)"
  unfolding is_flag_def by auto

lemma pair_full: "(w AND (a OR b) = (a OR b)) = (w AND a = a \<and> w AND b = (b::32 word))"
  by (auto simp: bit_eq_iff bit_and_iff bit_or_iff)

lemma hdr_curr_flags:
  "is_flag (CO_FL_CURR_RD_ENA hdr)" "is_flag (CO_FL_CURR_RD_POL hdr)"
  "is_flag (CO_FL_CURR_WR_ENA hdr)" "is_flag (CO_FL_CURR_WR_POL hdr)"
  using is_flag_exp[of 20] is_flag_exp[of 21] is_flag_exp[of 22] is_flag_exp[of 23]
  by (simp_all add: hdr_def)

lemma spec_calls_length: "length (spec_calls old new p w s) \<le> 1"
  by (auto simp: spec_calls_def spec_poll_def spec_want_def spec_stop_def)

text \<open>One direction of the source, against the words of the specification.\<close>

lemma dir_calls:
  assumes "is_flag E" "is_flag P"
  shows "(if old AND (E OR P) \<noteq> (E OR P) \<and> new AND (E OR P) = (E OR P) then [p]
          else if old AND E = 0 \<and> new AND E \<noteq> 0 then [w]
          else if old AND E \<noteq> 0 \<and> new AND E = 0 then [s] else [])
         = spec_calls (old AND E \<noteq> 0, old AND P \<noteq> 0) (new AND E \<noteq> 0, new AND P \<noteq> 0) p w s"
proof -
  have e: "\<And>x. (x AND E = 0) = (x AND E \<noteq> E)" using assms(1) by (rule is_flag_test)
  have p: "\<And>x. (x AND P = 0) = (x AND P \<noteq> P)" using assms(2) by (rule is_flag_test)
  show ?thesis
    unfolding pair_full spec_calls_def spec_poll_def spec_want_def spec_stop_def e p
    by (cases "old AND E = E"; cases "old AND P = P"; cases "new AND E = E";
        cases "new AND P = P"; simp)
qed

text \<open>
  C1. For every state of the current-interest bits and every \<open>new\<close>, the reconciler
  makes, for the receive direction and then for the send direction, at most one call:
  poll when the pair becomes 11 and was not 11, want when \<open>ENA\<close> goes from 0 to 1 and
  the pair does not become 11, stop when \<open>ENA\<close> goes from 1 to 0, and nothing
  otherwise; all on the descriptor of the connection.
\<close>

theorem conn_set_polling_calls:
  assumes "is_flag (CO_FL_CURR_RD_ENA K)" "is_flag (CO_FL_CURR_RD_POL K)"
    "is_flag (CO_FL_CURR_WR_ENA K)" "is_flag (CO_FL_CURR_WR_POL K)"
  shows "fst (conn_set_polling K c new) =
           spec_calls (rd_pair K (flags c)) (rd_pair K new)
             (Fd_poll_recv (sock_fd c)) (Fd_want_recv (sock_fd c)) (Fd_stop_recv (sock_fd c))
         @ spec_calls (wr_pair K (flags c)) (wr_pair K new)
             (Fd_poll_send (sock_fd c)) (Fd_want_send (sock_fd c)) (Fd_stop_send (sock_fd c))
       \<and> length (spec_calls (rd_pair K (flags c)) (rd_pair K new)
             (Fd_poll_recv (sock_fd c)) (Fd_want_recv (sock_fd c)) (Fd_stop_recv (sock_fd c))) \<le> 1
       \<and> length (spec_calls (wr_pair K (flags c)) (wr_pair K new)
             (Fd_poll_send (sock_fd c)) (Fd_want_send (sock_fd c)) (Fd_stop_send (sock_fd c))) \<le> 1"
proof -
  have "fst (conn_set_polling K c new) =
           spec_calls (rd_pair K (flags c)) (rd_pair K new)
             (Fd_poll_recv (sock_fd c)) (Fd_want_recv (sock_fd c)) (Fd_stop_recv (sock_fd c))
         @ spec_calls (wr_pair K (flags c)) (wr_pair K new)
             (Fd_poll_send (sock_fd c)) (Fd_want_send (sock_fd c)) (Fd_stop_send (sock_fd c))"
    unfolding conn_set_polling_def Let_def fst_conv rd_pair_def wr_pair_def
      dir_calls[OF assms(1,2)] dir_calls[OF assms(3,4)] ..
  then show ?thesis by (rule conjI[OF _ conjI[OF spec_calls_length spec_calls_length]])
qed

text \<open>The sixth scenario of the specification: from \<open>(ENA, POL) = 10\<close> to 11 on the
  receive side, nothing on the send side, gives one \<^verbatim>\<open>fd_poll_recv\<close>.\<close>

theorem conn_set_polling_calls_witness:
  "is_flag (CO_FL_CURR_RD_ENA hdr) \<and> is_flag (CO_FL_CURR_RD_POL hdr) \<and>
   is_flag (CO_FL_CURR_WR_ENA hdr) \<and> is_flag (CO_FL_CURR_WR_POL hdr) \<and>
   fst (conn_set_polling hdr c_reading 0x00300000) = [Fd_poll_recv 7]"
  using conn_set_polling_calls[OF hdr_curr_flags, of c_reading "0x00300000"] hdr_curr_flags
  by (simp add: spec_calls_def spec_poll_def spec_want_def spec_stop_def rd_pair_def
      wr_pair_def hdr_def c_reading_def)

text \<open>
  C6. After \<^verbatim>\<open>conn_set_polling(c, new)\<close> the four current-interest bits of
  \<^verbatim>\<open>c->flags\<close> are those of \<open>new\<close>, every other bit of the flags is as it was,
  and so is the descriptor.
\<close>

theorem conn_set_polling_commit:
  "flags (snd (conn_set_polling K c new)) AND CO_FL_CURR_RD_ENA K = new AND CO_FL_CURR_RD_ENA K
   \<and> flags (snd (conn_set_polling K c new)) AND CO_FL_CURR_RD_POL K = new AND CO_FL_CURR_RD_POL K
   \<and> flags (snd (conn_set_polling K c new)) AND CO_FL_CURR_WR_ENA K = new AND CO_FL_CURR_WR_ENA K
   \<and> flags (snd (conn_set_polling K c new)) AND CO_FL_CURR_WR_POL K = new AND CO_FL_CURR_WR_POL K
   \<and> flags (snd (conn_set_polling K c new)) AND NOT (curr_mask K) = flags c AND NOT (curr_mask K)
   \<and> sock_fd (snd (conn_set_polling K c new)) = sock_fd c"
  by (auto simp: conn_set_polling_def Let_def curr_mask_def bit_eq_iff bit_and_iff bit_or_iff
      bit_not_iff)

lemma mask_sub:
  fixes a b m e :: "32 word"
  assumes "a AND m = b AND m" "e AND m = e"
  shows "a AND e = b AND e"
proof -
  have "a AND e = (a AND m) AND e" using assms(2) by (metis and.assoc and.commute)
  also have "\<dots> = (b AND m) AND e" using assms(1) by simp
  also have "\<dots> = b AND e" using assms(2) by (metis and.assoc and.commute)
  finally show ?thesis .
qed

lemma curr_mask_sub:
  "CO_FL_CURR_RD_ENA K AND curr_mask K = CO_FL_CURR_RD_ENA K"
  "CO_FL_CURR_WR_ENA K AND curr_mask K = CO_FL_CURR_WR_ENA K"
  "(CO_FL_CURR_RD_ENA K OR CO_FL_CURR_RD_POL K) AND curr_mask K
     = CO_FL_CURR_RD_ENA K OR CO_FL_CURR_RD_POL K"
  "(CO_FL_CURR_WR_ENA K OR CO_FL_CURR_WR_POL K) AND curr_mask K
     = CO_FL_CURR_WR_ENA K OR CO_FL_CURR_WR_POL K"
  by (auto simp: curr_mask_def bit_eq_iff bit_and_iff bit_or_iff)

text \<open>Asked for the bits it already has, the reconciler calls nothing and changes
  nothing.\<close>

lemma conn_set_polling_same:
  assumes "new AND curr_mask K = flags c AND curr_mask K"
  shows "conn_set_polling K c new = ([], c)"
proof -
  note e = mask_sub[OF assms curr_mask_sub(1)] mask_sub[OF assms curr_mask_sub(2)]
    mask_sub[OF assms curr_mask_sub(3)] mask_sub[OF assms curr_mask_sub(4)]
  have f: "(flags c AND NOT (curr_mask K)) OR (new AND curr_mask K) = flags c"
    unfolding assms by (auto simp: bit_eq_iff bit_and_iff bit_or_iff bit_not_iff)
  show ?thesis
    unfolding conn_set_polling_def Let_def e
    using f by (simp add: curr_mask_def)
qed

lemma conn_set_polling_flags:
  "flags (snd (conn_set_polling K c new)) AND curr_mask K = new AND curr_mask K"
  by (auto simp: conn_set_polling_def Let_def curr_mask_def bit_eq_iff bit_and_iff bit_or_iff
      bit_not_iff)

lemma conn_set_polling_other:
  "flags (snd (conn_set_polling K c new)) AND NOT (curr_mask K) = flags c AND NOT (curr_mask K)"
  by (auto simp: conn_set_polling_def Let_def curr_mask_def bit_eq_iff bit_and_iff bit_or_iff
      bit_not_iff)

text \<open>
  C7. When the current-interest part of \<open>new\<close> is what the connection already has, the
  reconciler makes no call to the event facility. So of two calls in a row with the
  same \<open>X\<close> the second makes none, and the two together make the calls of the first.
\<close>

theorem conn_set_polling_idempotent:
  "(new AND curr_mask K = flags c AND curr_mask K \<longrightarrow> fst (conn_set_polling K c new) = [])
   \<and> fst (conn_set_polling K (snd (conn_set_polling K c X)) X) = []
   \<and> fst (conn_set_polling K c X) @ fst (conn_set_polling K (snd (conn_set_polling K c X)) X)
       = fst (conn_set_polling K c X)"
  using conn_set_polling_same[of new K c]
    conn_set_polling_same[of X K "snd (conn_set_polling K c X)", OF conn_set_polling_flags[symmetric]]
  by simp

text \<open>A connection registered for reading is asked to be registered for reading; the
  error bit in \<open>new\<close> is outside the current-interest part.\<close>

theorem conn_set_polling_idempotent_witness:
  "0x00100001 AND curr_mask hdr = flags c_reading AND curr_mask hdr \<and>
   fst (conn_set_polling hdr c_reading 0x00100001) = [] \<and>
   fst (conn_set_polling hdr (snd (conn_set_polling hdr c_reading 0x00300000)) 0x00300000) = []"
  using conn_set_polling_idempotent[of "0x00100001" hdr c_reading "0x00300000"]
  by (simp add: hdr_def c_reading_def curr_mask_def)

section \<open>Properties of the readiness handler\<close>

lemma invoke_simps:
  "fst (invoke w c f st) = fst (f (fst st))"
  "fst (snd (invoke w c f st)) = snd (f (fst st))"
  "snd (snd (invoke w c f st)) = snd st @ [Call w (get_flags (fst st) c) (fst (f (fst st)))]"
  by (simp_all add: invoke_def Let_def)

lemma invoke_void_simps:
  "fst (invoke_void w c g st) = g (fst st)"
  "snd (invoke_void w c g st) = snd st @ [Call w (get_flags (fst st) c) 0]"
  by (simp_all add: invoke_void_def)

text \<open>What each step adds to the calls.\<close>

lemma accept_proxy_step_trace:
  "snd (snd (accept_proxy_step K cb conn st)) = snd st @
     (if get_flags (fst st) conn AND CO_FL_ACCEPT_PROXY K \<noteq> 0
      then [Call (Conn_recv_proxy (CO_FL_ACCEPT_PROXY K)) (get_flags (fst st) conn)
              (fst (conn_recv_proxy cb conn (CO_FL_ACCEPT_PROXY K) (fst st)))]
      else [])"
  by (simp add: accept_proxy_step_def invoke_simps)

lemma send_proxy_step_trace:
  "snd (snd (send_proxy_step K cb conn st)) = snd st @
     (if get_flags (fst st) conn AND CO_FL_SI_SEND_PROXY K \<noteq> 0
      then [Call (Conn_si_send_proxy (CO_FL_SI_SEND_PROXY K)) (get_flags (fst st) conn)
              (fst (conn_si_send_proxy cb conn (CO_FL_SI_SEND_PROXY K) (fst st)))]
      else [])"
  by (simp add: send_proxy_step_def invoke_simps)



text \<open>The calls of one iteration, in full.\<close>

lemma handshake_body_trace:
  "snd (ctl_arg (handshake_body K cb conn st)) = snd st @
     (if get_flags (fst st) conn AND CO_FL_ERROR K \<noteq> 0 then []
      else (drop (length (snd st)) (snd (snd (accept_proxy_step K cb conn st)))) @
           (if fst (accept_proxy_step K cb conn st) = 0 then []
            else drop (length (snd (snd (accept_proxy_step K cb conn st))))
                   (snd (snd (send_proxy_step K cb conn (snd (accept_proxy_step K cb conn st)))))))"
  by (simp add: handshake_body_def Let_def accept_proxy_step_trace send_proxy_step_trace)


lemma handshake_body_ctl:
  "(\<exists>st'. handshake_body K cb conn st = Next st') \<or> (\<exists>st'. handshake_body K cb conn st = Goto_leave st')"
  by (simp add: handshake_body_def Let_def)




lemma handshake_body_leave:
  "handshake_body K cb conn st = Goto_leave st' \<Longrightarrow>
     (get_flags (fst st) conn AND CO_FL_ERROR K \<noteq> 0 \<and> st' = st)
     \<or> (snd st' \<noteq> [] \<and> result (last (snd st')) = 0 \<and> hs_call K (last (snd st')))"
  by (auto simp add: handshake_body_def Let_def accept_proxy_step_def send_proxy_step_def
      invoke_simps hs_call_def split: if_splits)

lemma handshake_loop_exit:
  assumes "handshake_loop K cb conn st = Some c"
  shows "loop_exit K conn c"
proof (rule handshake_loop.raw_induct[where P = "\<lambda>K cb conn st c. loop_exit K conn c", OF _ assms],
    goal_cases)
  case (1 loop K cb conn st c)
  show ?case
  proof (cases "get_flags (fst st) conn AND CO_FL_HANDSHAKE K \<noteq> 0")
    case False
    with 1(2) show ?thesis by (auto simp: loop_exit_def)
  next
    case True
    from handshake_body_ctl[of K cb conn st] show ?thesis
    proof (elim disjE exE)
      fix st' assume b: "handshake_body K cb conn st = Next st'"
      from True b 1(2) have "loop K cb conn st' = Some c" by simp
      then show ?thesis by (rule 1(1))
    next
      fix st' assume b: "handshake_body K cb conn st = Goto_leave st'"
      from True b 1(2) have c: "c = Goto_leave st'" by simp
      from handshake_body_leave[OF b] True show ?thesis
        unfolding c loop_exit_def by auto
    qed
  qed
qed

lemma handshake_loop_ctl:
  assumes "handshake_loop K cb conn st = Some c"
  shows "(\<exists>st'. c = Next st') \<or> (\<exists>st'. c = Goto_leave st')"
  using handshake_loop_exit[OF assms] by (cases c) (simp_all add: loop_exit_def)

text \<open>A relation that holds across every iteration holds across the loop.\<close>

lemma handshake_loop_rel:
  assumes refl: "\<And>a. R a a"
    and trans: "\<And>a b c. R a b \<Longrightarrow> R b c \<Longrightarrow> R a c"
    and body: "\<And>st. get_flags (fst st) conn AND CO_FL_HANDSHAKE K \<noteq> 0
                 \<Longrightarrow> R st (ctl_arg (handshake_body K cb conn st))"
    and run: "handshake_loop K cb conn st = Some c"
  shows "R st (ctl_arg c)"
proof -
  have gen: "K' = K \<and> cb' = cb \<and> conn' = conn \<longrightarrow> (\<forall>st0. R st0 st \<longrightarrow> R st0 (ctl_arg c))"
    if "handshake_loop K' cb' conn' st = Some c" for K' cb' conn' st c
  proof (rule handshake_loop.raw_induct[where
        P = "\<lambda>K' cb' conn' st c. K' = K \<and> cb' = cb \<and> conn' = conn \<longrightarrow> (\<forall>st0. R st0 st \<longrightarrow> R st0 (ctl_arg c))",
        OF _ that], intro impI allI, goal_cases)
    case (1 loop K' cb' conn' st c st0)
    then have eq: "K' = K" "cb' = cb" "conn' = conn" by simp_all
    show ?case
    proof (cases "get_flags (fst st) conn AND CO_FL_HANDSHAKE K \<noteq> 0")
      case False
      with 1(2) 1(4) show ?thesis by (auto simp: eq)
    next
      case True
      have step: "R st0 (ctl_arg (handshake_body K cb conn st))"
        using trans[OF 1(4) body[OF True]] .
      from handshake_body_ctl[of K cb conn st] show ?thesis
      proof (elim disjE exE)
        fix st' assume b: "handshake_body K cb conn st = Next st'"
        from True b 1(2) have "loop K cb conn st' = Some c" by (simp add: eq)
        from 1(1)[OF this] eq have "R st0 st' \<longrightarrow> R st0 (ctl_arg c)" by blast
        moreover from step b have "R st0 st'" by simp
        ultimately show ?thesis by blast
      next
        fix st' assume b: "handshake_body K cb conn st = Goto_leave st'"
        from True b 1(2) have c: "c = Goto_leave st'" by (simp add: eq)
        from step b show ?thesis unfolding c by simp
      qed
    qed
  qed
  from gen[OF run] refl show ?thesis by blast
qed

lemma enter_data_phase_ctl:
  "(\<exists>st'. enter_data_phase K cb conn st = Next st')
   \<or> (\<exists>st'. enter_data_phase K cb conn st = Return_0 st')"
  by (simp add: enter_data_phase_def Let_def)

lemma data_phase_ctl:
  "(\<exists>st'. data_phase K cb fd conn st = Next st')
   \<or> (\<exists>st'. data_phase K cb fd conn st = Goto_leave st')
   \<or> (\<exists>st'. data_phase K cb fd conn st = Goto_process_handshake st')"
  by (simp add: data_phase_def Let_def)

lemma enter_data_phase_return:
  "enter_data_phase K cb conn st = Return_0 st' \<Longrightarrow>
     snd st' \<noteq> [] \<and> what (last (snd st')) = Conn_session_complete (CO_FL_INIT_SESS K)
       \<and> result (last (snd st')) < 0
       \<and> (\<exists>s0. fst st' = snd (conn_session_complete cb conn (CO_FL_INIT_SESS K) s0))"
  by (auto simp: enter_data_phase_def Let_def invoke_simps split: if_splits)

text \<open>A relation that holds across the loop body, the entry to the data phase and the
  data phase as it is entered holds from the label \<^verbatim>\<open>process_handshake\<close> up to the
  end of the cycle.\<close>

lemma process_handshake_rel_gen:
  assumes refl: "\<And>a. R a a"
    and trans: "\<And>a b c. R a b \<Longrightarrow> R b c \<Longrightarrow> R a c"
    and body: "\<And>st. get_flags (fst st) conn AND CO_FL_HANDSHAKE K \<noteq> 0
                 \<Longrightarrow> R st (ctl_arg (handshake_body K cb conn st))"
    and enter: "\<And>st. get_flags (fst st) conn AND CO_FL_HANDSHAKE K = 0
                 \<Longrightarrow> R st (ctl_arg (enter_data_phase K cb conn st))"
    and data: "\<And>stb st. get_flags (fst stb) conn AND CO_FL_HANDSHAKE K = 0
                 \<Longrightarrow> enter_data_phase K cb conn stb = Next st
                 \<Longrightarrow> R st (ctl_arg (data_phase K cb fd conn st))"
    and run: "process_handshake K cb fd conn st = Some res"
  shows "\<exists>st'. R st st' \<and> cycle_end K cb fd conn st' res"
proof -
  let ?Q = "\<lambda>st res. \<forall>st0. R st0 st \<longrightarrow> (\<exists>st'. R st0 st' \<and> cycle_end K cb fd conn st' res)"
  have gen: "K' = K \<and> cb' = cb \<and> fd' = fd \<and> conn' = conn \<longrightarrow> ?Q st res"
    if "process_handshake K' cb' fd' conn' st = Some res" for K' cb' fd' conn' st res
  proof (rule process_handshake.raw_induct[where
        P = "\<lambda>K' cb' fd' conn' st res. K' = K \<and> cb' = cb \<and> fd' = fd \<and> conn' = conn \<longrightarrow> ?Q st res",
        OF _ that], intro impI allI, goal_cases)
    case (1 self K' cb' fd' conn' st res st0)
    then have eq: "K' = K" "cb' = cb" "fd' = fd" "conn' = conn" by simp_all
    from 1(2) obtain c where
      loop: "handshake_loop K cb conn st = Some c" and
      rest: "(case c of
         Next st1 \<Rightarrow>
           (case enter_data_phase K cb conn st1 of
              Next st2 \<Rightarrow>
                (case data_phase K cb fd conn st2 of
                   Goto_process_handshake st3 \<Rightarrow> self K cb fd conn st3
                 | Return_0 st3 \<Rightarrow> Some (0, st3)
                 | Goto_leave st3 \<Rightarrow> Some (leave K cb fd conn st3)
                 | Next st3 \<Rightarrow> Some (leave K cb fd conn st3))
            | Goto_process_handshake st2 \<Rightarrow> self K cb fd conn st2
            | Return_0 st2 \<Rightarrow> Some (0, st2)
            | Goto_leave st2 \<Rightarrow> Some (leave K cb fd conn st2))
       | Goto_process_handshake st1 \<Rightarrow> self K cb fd conn st1
       | Return_0 st1 \<Rightarrow> Some (0, st1)
       | Goto_leave st1 \<Rightarrow> Some (leave K cb fd conn st1)) = Some res"
      unfolding eq by (auto simp: bind_eq_Some_conv)
    have r1: "R st0 (ctl_arg c)"
      using trans[OF 1(4) handshake_loop_rel[of R, OF refl trans body loop]] .
    from handshake_loop_ctl[OF loop] show ?case
    proof (elim disjE exE)
      fix st1 assume c: "c = Goto_leave st1"
      with rest have "res = leave K cb fd conn st1" by simp
      moreover from r1 c have "R st0 st1" by simp
      ultimately show ?thesis unfolding cycle_end_def by blast
    next
      fix st1 assume c: "c = Next st1"
      with handshake_loop_exit[OF loop] have hs: "get_flags (fst st1) conn AND CO_FL_HANDSHAKE K = 0"
        by (simp add: loop_exit_def)
      have r2: "R st0 (ctl_arg (enter_data_phase K cb conn st1))"
        using trans[OF r1[unfolded c ctl_arg.simps] enter[OF hs]] .
      from enter_data_phase_ctl[of K cb conn st1] show ?thesis
      proof (elim disjE exE)
        fix st2 assume e: "enter_data_phase K cb conn st1 = Return_0 st2"
        from rest c e have "res = (0, st2)" by simp
        moreover from r2 e have "R st0 st2" by simp
        ultimately show ?thesis using enter_data_phase_return[OF e] unfolding cycle_end_def by blast
      next
        fix st2 assume e: "enter_data_phase K cb conn st1 = Next st2"
        have r3: "R st0 (ctl_arg (data_phase K cb fd conn st2))"
          using trans[OF r2[unfolded e ctl_arg.simps] data[OF hs e]] .
        from data_phase_ctl[of K cb fd conn st2] show ?thesis
        proof (elim disjE exE)
          fix st3 assume d: "data_phase K cb fd conn st2 = Next st3"
          with rest c e have "res = leave K cb fd conn st3" by simp
          moreover from r3 d have "R st0 st3" by simp
          ultimately show ?thesis unfolding cycle_end_def by blast
        next
          fix st3 assume d: "data_phase K cb fd conn st2 = Goto_leave st3"
          with rest c e have "res = leave K cb fd conn st3" by simp
          moreover from r3 d have "R st0 st3" by simp
          ultimately show ?thesis unfolding cycle_end_def by blast
        next
          fix st3 assume d: "data_phase K cb fd conn st2 = Goto_process_handshake st3"
          with rest c e have "self K cb fd conn st3 = Some res" by simp
          from 1(1)[OF this] eq have "?Q st3 res" by blast
          moreover from r3 d have "R st0 st3" by simp
          ultimately show ?thesis by blast
        qed
      qed
    qed
  qed
  from gen[OF run] refl show ?thesis by blast
qed

text \<open>A relation that holds across the loop body, the entry to the data phase and the
  data phase holds from the label \<^verbatim>\<open>process_handshake\<close> up to the end of the cycle.\<close>

lemma process_handshake_rel:
  assumes refl: "\<And>a. R a a"
    and trans: "\<And>a b c. R a b \<Longrightarrow> R b c \<Longrightarrow> R a c"
    and body: "\<And>st. get_flags (fst st) conn AND CO_FL_HANDSHAKE K \<noteq> 0
                 \<Longrightarrow> R st (ctl_arg (handshake_body K cb conn st))"
    and enter: "\<And>st. get_flags (fst st) conn AND CO_FL_HANDSHAKE K = 0
                 \<Longrightarrow> R st (ctl_arg (enter_data_phase K cb conn st))"
    and data: "\<And>st. R st (ctl_arg (data_phase K cb fd conn st))"
    and run: "process_handshake K cb fd conn st = Some res"
  shows "\<exists>st'. R st st' \<and> cycle_end K cb fd conn st' res"
  by (rule process_handshake_rel_gen[of R, OF refl trans body enter data run])


lemma handshake_loop_done: 
  "get_flags (fst st) conn AND CO_FL_HANDSHAKE K = 0 \<Longrightarrow> handshake_loop K cb conn st = Some (Next st)"
  by (subst handshake_loop.simps) simp

lemma handshake_loop_error: 
  "get_flags (fst st) conn AND CO_FL_HANDSHAKE K \<noteq> 0 \<Longrightarrow> get_flags (fst st) conn AND CO_FL_ERROR K \<noteq> 0 \<Longrightarrow>
   handshake_loop K cb conn st = Some (Goto_leave st)"
  by (subst handshake_loop.simps) (simp add: handshake_body_def)


lemma handshake_loop_again: 
  "get_flags (fst st) conn AND CO_FL_HANDSHAKE K \<noteq> 0 \<Longrightarrow> handshake_body K cb conn st = Next st' \<Longrightarrow>
   handshake_loop K cb conn st = handshake_loop K cb conn st'"
  by (subst handshake_loop.simps) simp

lemma get_set_flags [simp]:
  "get_flags (set_flags c v s) p = (if p = c then v else get_flags s p)"
  by (simp add: get_flags_def set_flags_def)

lemma get_ev_set_flags [simp]: "get_ev (set_flags c v s) fd = get_ev s fd"
  by (simp add: get_ev_def set_flags_def)

lemma get_set_ev [simp]:
  "get_ev (set_ev fd v s) fd' = (if fd' = fd then v else get_ev s fd')"
  by (simp add: get_ev_def set_ev_def)

lemma get_flags_set_ev [simp]: "get_flags (set_ev fd v s) p = get_flags s p"
  by (simp add: get_flags_def set_ev_def)

lemma set_flags_same: "set_flags c (get_flags s c) s = s"
  by (simp add: set_flags_def get_flags_def)

lemma or_absorb_error:
  fixes f :: "32 word"
  shows "f AND (e OR i) = (e OR i) \<Longrightarrow> f OR e = f"
  by (auto simp: bit_eq_iff bit_and_iff bit_or_iff)

lemma cond_update_ev [simp]:
  "get_ev (fst (conn_cond_update_polling K cb conn st)) fd = get_ev (fst st) fd"
  by (simp add: conn_cond_update_polling_def Let_def get_ev_def)

lemma cond_update_flags:
  "get_flags (fst (conn_cond_update_polling K cb conn st)) p =
     (if p = conn
      then flags (snd (conn_set_polling K (conns (fst st) conn)
                   (polling_wanted cb (get_flags (fst st) conn))))
      else get_flags (fst st) p)"
  by (simp add: conn_cond_update_polling_def Let_def get_flags_def)

text \<open>The leave path when the error and the pending session are both set.\<close>

lemma leave_abort:
  assumes "embryonic_error K (get_flags (fst st) conn)"
  shows "leave K cb fd conn st =
     (0, (snd (conn_session_complete cb conn (CO_FL_INIT_SESS K) (fst st)),
          snd st @ [Call (Conn_session_complete (CO_FL_INIT_SESS K)) (get_flags (fst st) conn)
                      (fst (conn_session_complete cb conn (CO_FL_INIT_SESS K) (fst st)))]))"
proof -
  have "get_flags (fst st) conn OR CO_FL_ERROR K = get_flags (fst st) conn"
    using assms unfolding embryonic_error_def by (rule or_absorb_error)
  then show ?thesis
    using assms
    by (simp add: leave_def embryonic_error_def Let_def invoke_simps set_flags_same prod_eq_iff)
qed

text \<open>The leave path otherwise.\<close>

lemma leave_normal:
  assumes "\<not> embryonic_error K (get_flags (fst st) conn)"
  shows "leave K cb fd conn st =
     (0, conn_cond_update_polling K cb conn
           (set_ev fd (get_ev (fst (notify_step K cb conn st)) fd AND NOT (poll_mask K))
              (if get_flags (fst (notify_step K cb conn st)) conn AND
                    (CO_FL_WAIT_L4_CONN K OR CO_FL_WAIT_L6_CONN K OR CO_FL_CONNECTED K) = 0
               then set_flags conn (get_flags (fst (notify_step K cb conn st)) conn
                                      OR CO_FL_CONNECTED K) (fst (notify_step K cb conn st))
               else fst (notify_step K cb conn st)),
            snd (notify_step K cb conn st)))"
  using assms by (simp add: leave_def embryonic_error_def Let_def poll_mask_def)

lemma notify_step_trace:
  "snd (notify_step K cb conn st) = snd st @
     (if get_flags (fst st) conn AND CO_FL_NOTIFY_SI K \<noteq> 0
      then [Call Conn_notify_si (get_flags (fst st) conn) 0] else [])"
  by (simp add: notify_step_def invoke_void_simps)

lemma cond_update_calls:
  "\<exists>ys. snd (conn_cond_update_polling K cb conn st) = snd st @ ys \<and> ys \<noteq> [] \<and>
     what (hd ys) = Conn_cond_update_polling \<and> list_all polling_call ys"
  by (simp add: conn_cond_update_polling_def Let_def list_all_iff polling_call_def)

text \<open>The calls of the leave path.\<close>

lemma leave_calls_abort:
  "embryonic_error K (get_flags (fst st) conn) \<Longrightarrow>
     added st (snd (leave K cb fd conn st)) =
       [Call (Conn_session_complete (CO_FL_INIT_SESS K)) (get_flags (fst st) conn)
          (fst (conn_session_complete cb conn (CO_FL_INIT_SESS K) (fst st)))]"
  by (simp add: leave_abort added_def)

lemma leave_calls_normal:
  assumes "\<not> embryonic_error K (get_flags (fst st) conn)"
  shows "\<exists>ys. added st (snd (leave K cb fd conn st)) =
            (if get_flags (fst st) conn AND CO_FL_NOTIFY_SI K \<noteq> 0
             then [Call Conn_notify_si (get_flags (fst st) conn) 0] else []) @ ys \<and>
          ys \<noteq> [] \<and> what (hd ys) = Conn_cond_update_polling \<and> list_all polling_call ys"
proof -
  let ?st3 = "(set_ev fd (get_ev (fst (notify_step K cb conn st)) fd AND NOT (poll_mask K))
              (if get_flags (fst (notify_step K cb conn st)) conn AND
                    (CO_FL_WAIT_L4_CONN K OR CO_FL_WAIT_L6_CONN K OR CO_FL_CONNECTED K) = 0
               then set_flags conn (get_flags (fst (notify_step K cb conn st)) conn
                                      OR CO_FL_CONNECTED K) (fst (notify_step K cb conn st))
               else fst (notify_step K cb conn st)),
            snd (notify_step K cb conn st))"
  from cond_update_calls[of K cb conn ?st3] obtain ys where
    ys: "snd (conn_cond_update_polling K cb conn ?st3) = snd ?st3 @ ys" and
    sh: "ys \<noteq> [] \<and> what (hd ys) = Conn_cond_update_polling \<and> list_all polling_call ys"
    by blast
  have "added st (snd (leave K cb fd conn st)) =
      (if get_flags (fst st) conn AND CO_FL_NOTIFY_SI K \<noteq> 0
       then [Call Conn_notify_si (get_flags (fst st) conn) 0] else []) @ ys"
    unfolding leave_normal[OF assms] snd_conv added_def ys by (simp add: notify_step_trace)
  with sh show ?thesis by blast
qed

lemma leave_result: "fst (leave K cb fd conn st) = 0"
  by (simp add: leave_def Let_def)

lemma leave_trace: "snd (snd (leave K cb fd conn st)) = snd st @ added st (snd (leave K cb fd conn st))"
proof (cases "embryonic_error K (get_flags (fst st) conn)")
  case True
  then show ?thesis by (simp add: leave_abort added_def)
next
  case False
  obtain ys where "snd (snd (leave K cb fd conn st)) = snd (notify_step K cb conn st) @ ys"
    using cond_update_calls[of K cb conn] unfolding leave_normal[OF False] by fastforce
  then show ?thesis by (simp add: added_def notify_step_trace)
qed

lemma polling_not_data: "polling_call e \<Longrightarrow> \<not> data_call e"
  by (auto simp: polling_call_def data_call_def)

lemma leave_no_data:
  "list_all (\<lambda>e. \<not> data_call e) (added st (snd (leave K cb fd conn st)))"
proof (cases "embryonic_error K (get_flags (fst st) conn)")
  case True
  then show ?thesis by (simp add: leave_calls_abort data_call_def)
next
  case False
  from leave_calls_normal[OF False, of cb fd] obtain ys where
    ys: "added st (snd (leave K cb fd conn st)) =
            (if get_flags (fst st) conn AND CO_FL_NOTIFY_SI K \<noteq> 0
             then [Call Conn_notify_si (get_flags (fst st) conn) 0] else []) @ ys"
      "list_all polling_call ys" by blast
  from ys(2) have "list_all (\<lambda>e. \<not> data_call e) ys"
    by (simp add: list_all_iff polling_not_data)
  then show ?thesis unfolding ys(1) by (simp add: data_call_def)
qed

lemma leave_notify_called:
  "(Conn_notify_si \<in> what ` set (added st (snd (leave K cb fd conn st))))
     = (\<not> embryonic_error K (get_flags (fst st) conn)
        \<and> get_flags (fst st) conn AND CO_FL_NOTIFY_SI K \<noteq> 0)"
proof (cases "embryonic_error K (get_flags (fst st) conn)")
  case True
  then show ?thesis by (simp add: leave_calls_abort)
next
  case False
  from leave_calls_normal[OF False, of cb fd] obtain ys where
    ys: "added st (snd (leave K cb fd conn st)) =
            (if get_flags (fst st) conn AND CO_FL_NOTIFY_SI K \<noteq> 0
             then [Call Conn_notify_si (get_flags (fst st) conn) 0] else []) @ ys"
      "list_all polling_call ys" by blast
  from ys(2) have "Conn_notify_si \<notin> what ` set ys"
    by (auto simp: list_all_iff polling_call_def)
  with False show ?thesis unfolding ys(1) by auto
qed

lemma leave_reconciler_called:
  "(Conn_cond_update_polling \<in> what ` set (added st (snd (leave K cb fd conn st))))
     = (\<not> embryonic_error K (get_flags (fst st) conn))"
proof (cases "embryonic_error K (get_flags (fst st) conn)")
  case True
  then show ?thesis by (simp add: leave_calls_abort)
next
  case False
  from leave_calls_normal[OF False, of cb fd] obtain ys where
    ys: "added st (snd (leave K cb fd conn st)) =
            (if get_flags (fst st) conn AND CO_FL_NOTIFY_SI K \<noteq> 0
             then [Call Conn_notify_si (get_flags (fst st) conn) 0] else []) @ ys"
      "ys \<noteq> []" "what (hd ys) = Conn_cond_update_polling" by blast
  from ys(2,3) have "Conn_cond_update_polling \<in> what ` set ys"
    by (cases ys) auto
  with False show ?thesis unfolding ys(1) by auto
qed

lemma leave_last_normal:
  assumes "\<not> embryonic_error K (get_flags (fst st) conn)"
  shows "snd (snd (leave K cb fd conn st)) \<noteq> [] \<and> polling_call (last (snd (snd (leave K cb fd conn st))))"
proof -
  from leave_calls_normal[OF assms, of cb fd] obtain ys where
    ys: "added st (snd (leave K cb fd conn st)) =
            (if get_flags (fst st) conn AND CO_FL_NOTIFY_SI K \<noteq> 0
             then [Call Conn_notify_si (get_flags (fst st) conn) 0] else []) @ ys"
      "ys \<noteq> []" "list_all polling_call ys" by blast
  from ys(2,3) have "polling_call (last ys)" by (simp add: list_all_iff)
  with ys(2) show ?thesis
    by (subst (1 2) leave_trace) (simp add: ys(1))
qed

lemma leave_ev_normal:
  assumes "\<not> embryonic_error K (get_flags (fst st) conn)"
  shows "get_ev (fst (snd (leave K cb fd conn st))) fd AND poll_mask K = 0"
  unfolding leave_normal[OF assms]
  by (simp add: bit_eq_iff bit_and_iff bit_not_iff)

text \<open>Every cycle on an owned descriptor ends in one of the two ways.\<close>

lemma conn_fd_handler_end:
  assumes "conn_fd_handler K cb fd s = Some res" "owner (fdtab s fd) = Some conn"
  shows "\<exists>st'. cycle_end K cb fd conn st' res"
proof -
  from assms have "process_handshake K cb fd conn (s, []) = Some res"
    by (simp add: conn_fd_handler_def)
  from process_handshake_rel[of "\<lambda>a b. True", OF _ _ _ _ _ this] show ?thesis by simp
qed

text \<open>
  C9. On a descriptor whose owner is NULL the handler returns 0 at once: it calls
  nothing, neither the event facility nor a callback, and the memory, the event slot
  included, is as it was.
\<close>

theorem conn_fd_handler_unowned:
  "owner (fdtab s fd) = None \<Longrightarrow> conn_fd_handler K cb fd s = Some (0, (s, []))"
  by (simp add: conn_fd_handler_def)

text \<open>The fifth scenario of the specification: an event is reported on a descriptor
  without owner.\<close>

theorem conn_fd_handler_unowned_witness:
  "owner (fdtab (s_at None 0x01 0x00100000) 7) = None \<and>
   conn_fd_handler hdr cb_quiet 7 (s_at None 0x01 0x00100000)
     = Some (0, (s_at None 0x01 0x00100000, []))"
  using conn_fd_handler_unowned[of "s_at None 0x01 0x00100000" 7 hdr cb_quiet]
  by (simp add: s_at_def)

text \<open>
  C5. A cycle on an owned descriptor ends through the leave path or at line 61. When
  the leave path finds both the error and the pending session set, it calls
  \<^verbatim>\<open>conn_session_complete(conn, CO_FL_INIT_SESS)\<close> and returns 0 with the memory as
  that call left it: this one call is all it makes, so the stream interface is not
  notified, \<^verbatim>\<open>CO_FL_CONNECTED\<close> is not set by the handler and the reconciler is not
  called. The stream interface is notified exactly when that conjunction does not hold
  and \<^verbatim>\<open>CO_FL_NOTIFY_SI\<close> is set, and the reconciler is called exactly when the
  conjunction does not hold.
\<close>

theorem leave_embryonic_session:
  "(embryonic_error K (get_flags (fst st) conn) \<longrightarrow>
      leave K cb fd conn st =
        (0, (snd (conn_session_complete cb conn (CO_FL_INIT_SESS K) (fst st)),
             snd st @ [Call (Conn_session_complete (CO_FL_INIT_SESS K)) (get_flags (fst st) conn)
                         (fst (conn_session_complete cb conn (CO_FL_INIT_SESS K) (fst st)))])))
   \<and> fst (leave K cb fd conn st) = 0
   \<and> (Conn_notify_si \<in> what ` set (added st (snd (leave K cb fd conn st))))
       = (\<not> embryonic_error K (get_flags (fst st) conn)
          \<and> get_flags (fst st) conn AND CO_FL_NOTIFY_SI K \<noteq> 0)
   \<and> (Conn_cond_update_polling \<in> what ` set (added st (snd (leave K cb fd conn st))))
       = (\<not> embryonic_error K (get_flags (fst st) conn))
   \<and> (conn_fd_handler K cb fd s = Some res \<and> owner (fdtab s fd) = Some conn
        \<longrightarrow> (\<exists>st'. cycle_end K cb fd conn st' res))"
  using leave_abort[of K st conn cb fd] leave_result[of K cb fd conn st]
    leave_notify_called[of st K cb fd conn] leave_reconciler_called[of st K cb fd conn]
    conn_fd_handler_end[of K cb fd s res conn]
  by blast

text \<open>The second scenario of the specification: the PROXY header does not parse while
  the session is still to be created.\<close>

lemma run_bad_proxy:
  "conn_fd_handler hdr cb_bad_proxy 7 (s_at (Some 0) 0x01 0x00100890)
     = Some (0, (set_flags 0 0x00100891 (s_at (Some 0) 0x01 0x00100890),
          [Call (Conn_recv_proxy 0x80) 0x00100890 0,
           Call (Conn_session_complete 0x800) 0x00100891 0]))"
  by (simp add: conn_fd_handler_def process_handshake.simps handshake_loop.simps
      handshake_body_def accept_proxy_step_def send_proxy_step_def leave_def
      invoke_def invoke_void_def get_flags_def set_flags_def Let_def
      hdr_def cb_bad_proxy_def cb_quiet_def s_at_def)

theorem leave_embryonic_session_witness:
  "embryonic_error hdr (get_flags (s_at (Some 0) 0x01 0x00100811) 0) \<and>
   leave hdr cb_quiet 7 0 (s_at (Some 0) 0x01 0x00100811, [])
     = (0, (s_at (Some 0) 0x01 0x00100811, [Call (Conn_session_complete 0x800) 0x00100811 0])) \<and>
   Conn_notify_si \<notin> what ` set (added (s_at (Some 0) 0x01 0x00100811, [])
        (snd (leave hdr cb_quiet 7 0 (s_at (Some 0) 0x01 0x00100811, [])))) \<and>
   Conn_notify_si \<in> what ` set (added (s_at (Some 0) 0x01 0x00100011, [])
        (snd (leave hdr cb_quiet 7 0 (s_at (Some 0) 0x01 0x00100011, [])))) \<and>
   (\<exists>st'. cycle_end hdr cb_bad_proxy 7 0 st'
      (0, (set_flags 0 0x00100891 (s_at (Some 0) 0x01 0x00100890),
          [Call (Conn_recv_proxy 0x80) 0x00100890 0,
           Call (Conn_session_complete 0x800) 0x00100891 0])))"
proof -
  have e: "embryonic_error hdr (get_flags (fst (s_at (Some 0) 0x01 0x00100811, [])) 0)"
    by (simp add: embryonic_error_def get_flags_def s_at_def hdr_def)
  have n: "\<not> embryonic_error hdr (get_flags (fst (s_at (Some 0) 0x01 0x00100011, [])) 0)"
    "get_flags (fst (s_at (Some 0) 0x01 0x00100011, [])) 0 AND CO_FL_NOTIFY_SI hdr \<noteq> 0"
    by (simp_all add: embryonic_error_def get_flags_def s_at_def hdr_def)
  have o: "owner (fdtab (s_at (Some 0) 0x01 0x00100890) 7) = Some 0"
    by (simp add: s_at_def)
  note t1 = leave_embryonic_session[where K = hdr and st = "(s_at (Some 0) 0x01 0x00100811, [])"
      and conn = 0 and cb = cb_quiet and fd = 7]
  note t2 = leave_embryonic_session[where K = hdr and st = "(s_at (Some 0) 0x01 0x00100011, [])"
      and conn = 0 and cb = cb_quiet and fd = 7]
  note t3 = leave_embryonic_session[where K = hdr and conn = 0 and cb = cb_bad_proxy and fd = 7
      and s = "s_at (Some 0) 0x01 0x00100890"
      and res = "(0, (set_flags 0 0x00100891 (s_at (Some 0) 0x01 0x00100890),
          [Call (Conn_recv_proxy 0x80) 0x00100890 0,
           Call (Conn_session_complete 0x800) 0x00100891 0]))"]
  have a: "leave hdr cb_quiet 7 0 (s_at (Some 0) 0x01 0x00100811, [])
     = (0, (s_at (Some 0) 0x01 0x00100811, [Call (Conn_session_complete 0x800) 0x00100811 0]))"
    using t1 e by (simp add: cb_quiet_def hdr_def get_flags_def s_at_def)
  have b: "Conn_notify_si \<notin> what ` set (added (s_at (Some 0) 0x01 0x00100811, [])
        (snd (leave hdr cb_quiet 7 0 (s_at (Some 0) 0x01 0x00100811, []))))"
    using t1 e by blast
  have c: "Conn_notify_si \<in> what ` set (added (s_at (Some 0) 0x01 0x00100011, [])
        (snd (leave hdr cb_quiet 7 0 (s_at (Some 0) 0x01 0x00100011, []))))"
    using t2 n by blast
  have d: "\<exists>st'. cycle_end hdr cb_bad_proxy 7 0 st'
      (0, (set_flags 0 0x00100891 (s_at (Some 0) 0x01 0x00100890),
          [Call (Conn_recv_proxy 0x80) 0x00100890 0,
           Call (Conn_session_complete 0x800) 0x00100891 0]))"
    using t3 run_bad_proxy o by blast
  from e a b c d show ?thesis by simp
qed

text \<open>
  C2 fails as it is stated: the two returns that follow \<^verbatim>\<open>conn_session_complete\<close>
  (line 61 and line 100) leave the event slot as it is. First run: the session
  constructor fails at line 60. Second run: the PROXY header does not parse, and the
  leave path completes the session by force. In both the input event is still in the
  slot when the handler returns.
\<close>

theorem conn_fd_handler_events_counterexample:
  "owner (fdtab (s_at (Some 0) 0x01 0x00000800) 7) = Some 0 \<and>
   conn_fd_handler hdr cb_refuse 7 (s_at (Some 0) 0x01 0x00000800)
     = Some (0, (s_at (Some 0) 0x01 0x00000800,
         [Call Conn_sock_stop_both 0x800 0, Call (Conn_session_complete 0x800) 0x800 (- 1)])) \<and>
   get_ev (s_at (Some 0) 0x01 0x00000800) 7
     AND (FD_POLL_IN hdr OR FD_POLL_OUT hdr OR FD_POLL_HUP hdr OR FD_POLL_ERR hdr) \<noteq> 0 \<and>
   owner (fdtab (s_at (Some 0) 0x01 0x00100890) 7) = Some 0 \<and>
   conn_fd_handler hdr cb_bad_proxy 7 (s_at (Some 0) 0x01 0x00100890)
     = Some (0, (set_flags 0 0x00100891 (s_at (Some 0) 0x01 0x00100890),
          [Call (Conn_recv_proxy 0x80) 0x00100890 0,
           Call (Conn_session_complete 0x800) 0x00100891 0])) \<and>
   get_ev (set_flags 0 0x00100891 (s_at (Some 0) 0x01 0x00100890)) 7
     AND (FD_POLL_IN hdr OR FD_POLL_OUT hdr OR FD_POLL_HUP hdr OR FD_POLL_ERR hdr) \<noteq> 0"
proof -
  have "conn_fd_handler hdr cb_refuse 7 (s_at (Some 0) 0x01 0x00000800)
     = Some (0, (s_at (Some 0) 0x01 0x00000800,
         [Call Conn_sock_stop_both 0x800 0, Call (Conn_session_complete 0x800) 0x800 (- 1)]))"
    by (simp add: conn_fd_handler_def process_handshake.simps handshake_loop.simps
      enter_data_phase_def invoke_def invoke_void_def get_flags_def Let_def
      hdr_def cb_refuse_def cb_quiet_def s_at_def)
  moreover have "get_ev (s_at (Some 0) 0x01 0x00000800) 7
     AND (FD_POLL_IN hdr OR FD_POLL_OUT hdr OR FD_POLL_HUP hdr OR FD_POLL_ERR hdr) \<noteq> 0"
    "get_ev (set_flags 0 0x00100891 (s_at (Some 0) 0x01 0x00100890)) 7
     AND (FD_POLL_IN hdr OR FD_POLL_OUT hdr OR FD_POLL_HUP hdr OR FD_POLL_ERR hdr) \<noteq> 0"
    by (simp_all add: get_ev_def set_flags_def s_at_def hdr_def)
  moreover have "owner (fdtab (s_at (Some 0) 0x01 0x00000800) 7) = Some 0"
    "owner (fdtab (s_at (Some 0) 0x01 0x00100890) 7) = Some 0"
    by (simp_all add: s_at_def)
  ultimately show ?thesis using run_bad_proxy by simp
qed

lemma keeps_eventsD:
  assumes "keeps_events cb fd"
  shows "get_ev (snd (conn_recv_proxy cb c f s)) fd = get_ev s fd"
    and "get_ev (snd (conn_si_send_proxy cb c f s)) fd = get_ev s fd"
    and "get_ev (conn_sock_stop_both cb c s) fd = get_ev s fd"
    and "get_ev (snd (conn_session_complete cb c f s)) fd = get_ev s fd"
    and "get_ev (app_cb_recv cb c s) fd = get_ev s fd"
    and "get_ev (app_cb_send cb c s) fd = get_ev s fd"
    and "get_ev (snd (tcp_connect_probe cb c s)) fd = get_ev s fd"
    and "get_ev (conn_notify_si cb c s) fd = get_ev s fd"
  using assms unfolding keeps_events_def by simp_all

lemma handshake_body_events:
  assumes "keeps_events cb fd"
  shows "same_events fd st (ctl_arg (handshake_body K cb conn st))"
  by (simp add: same_events_def handshake_body_def accept_proxy_step_def send_proxy_step_def
      Let_def invoke_simps keeps_eventsD[OF assms])

lemma enter_data_phase_events:
  assumes "keeps_events cb fd"
  shows "same_events fd st (ctl_arg (enter_data_phase K cb conn st))"
  by (simp add: same_events_def enter_data_phase_def Let_def invoke_simps invoke_void_simps
      keeps_eventsD[OF assms])

lemma data_phase_events:
  assumes "keeps_events cb fd"
  shows "same_events fd st (ctl_arg (data_phase K cb fd conn st))"
  by (simp add: same_events_def data_phase_def recv_step_def send_step_def Let_def
      invoke_simps invoke_void_simps keeps_eventsD[OF assms])

lemma notify_step_events:
  assumes "keeps_events cb fd"
  shows "get_ev (fst (notify_step K cb conn st)) fd = get_ev (fst st) fd"
  by (simp add: notify_step_def invoke_void_simps keeps_eventsD[OF assms])

text \<open>What the leave path does to the event slot when the collaborators leave it
  alone.\<close>

lemma leave_events:
  assumes k: "keeps_events cb fd"
  shows "get_ev (fst (snd (leave K cb fd conn st))) fd =
           (if embryonic_error K (get_flags (fst st) conn) then get_ev (fst st) fd
            else get_ev (fst st) fd AND NOT (poll_mask K))"
proof (cases "embryonic_error K (get_flags (fst st) conn)")
  case True
  then show ?thesis by (simp add: leave_abort keeps_eventsD[OF k])
next
  case False
  then show ?thesis
    unfolding leave_normal[OF False] by (simp add: notify_step_events[OF k])
qed

text \<open>Up to the end of the cycle the handler does not write the slot.\<close>

lemma process_handshake_events:
  assumes k: "keeps_events cb fd" and r: "process_handshake K cb fd conn st = Some res"
  shows "\<exists>st'. same_events fd st st' \<and> cycle_end K cb fd conn st' res"
proof (rule process_handshake_rel[where R = "same_events fd", OF _ _ _ _ _ r])
  show "\<And>a. same_events fd a a" by (simp add: same_events_def)
  show "\<And>a b c. same_events fd a b \<Longrightarrow> same_events fd b c \<Longrightarrow> same_events fd a c"
    by (simp add: same_events_def)
  show "\<And>st. get_flags (fst st) conn AND CO_FL_HANDSHAKE K \<noteq> 0
          \<Longrightarrow> same_events fd st (ctl_arg (handshake_body K cb conn st))"
    by (rule handshake_body_events[OF k])
  show "\<And>st. get_flags (fst st) conn AND CO_FL_HANDSHAKE K = 0
          \<Longrightarrow> same_events fd st (ctl_arg (enter_data_phase K cb conn st))"
    by (rule enter_data_phase_events[OF k])
  show "\<And>st. same_events fd st (ctl_arg (data_phase K cb fd conn st))"
    by (rule data_phase_events[OF k])
qed

lemma handler_events_kept:
  assumes k: "keeps_events cb fd"
    and run: "conn_fd_handler K cb fd s = Some (r, s', tr)"
    and own: "owner (fdtab s fd) = Some conn"
  shows "get_ev s' fd = (if polling_call (last tr) then get_ev s fd AND NOT (poll_mask K)
                         else get_ev s fd)"
proof -
  from run own have p: "process_handshake K cb fd conn (s, []) = Some (r, s', tr)"
    by (simp add: conn_fd_handler_def)
  from process_handshake_events[OF k p] obtain st' where
    e: "get_ev (fst st') fd = get_ev s fd" and c: "cycle_end K cb fd conn st' (r, s', tr)"
    unfolding same_events_def by auto
  show ?thesis
  proof (cases "(r, s', tr) = leave K cb fd conn st'")
    case False
    with c have "s' = fst st'" "tr = snd st'" "snd st' \<noteq> []"
      "what (last (snd st')) = Conn_session_complete (CO_FL_INIT_SESS K)"
      by (auto simp: cycle_end_def)
    with e show ?thesis by (simp add: polling_call_def)
  next
    case l: True
    then have s': "s' = fst (snd (leave K cb fd conn st'))"
      and tr: "tr = snd (snd (leave K cb fd conn st'))"
      by (metis fst_conv snd_conv)+
    show ?thesis
    proof (cases "embryonic_error K (get_flags (fst st') conn)")
      case True
      have "\<not> polling_call (last tr)"
        unfolding tr leave_abort[OF True] by (simp add: polling_call_def)
      with True e show ?thesis unfolding s' by (simp add: leave_events[OF k])
    next
      case False
      from leave_last_normal[OF False, of cb fd] have "polling_call (last tr)"
        unfolding tr by simp
      with False e show ?thesis unfolding s' by (simp add: leave_events[OF k])
    qed
  qed
qed

text \<open>
  C2, amended. A cycle on an owned descriptor returns 0 after at least one call, and
  in one of two ways. Either the last call is \<^verbatim>\<open>conn_session_complete(conn,
  CO_FL_INIT_SESS)\<close>, which returned a negative value (line 61) or was made with the
  error and the pending session both set (line 100); the memory is then what that call
  left, and the handler has not written the event slot: if the collaborators do not
  write it either, it is what it was when the handler was entered. Or the last call is
  that of the reconciler or one of its calls to the event facility (line 115); then the
  four event bits are clear in the slot, and if the collaborators do not write the
  slot, it is what it was on entry but for these four bits.
\<close>

theorem conn_fd_handler_events:
  assumes "conn_fd_handler K cb fd s = Some (r, s', tr)" and "owner (fdtab s fd) = Some conn"
  shows "r = 0 \<and> tr \<noteq> [] \<and>
     ((what (last tr) = Conn_session_complete (CO_FL_INIT_SESS K) \<and>
         (result (last tr) < 0 \<or> embryonic_error K (seen (last tr))) \<and>
         (\<exists>s0. s' = snd (conn_session_complete cb conn (CO_FL_INIT_SESS K) s0)) \<and>
         (keeps_events cb fd \<longrightarrow> get_ev s' fd = get_ev s fd))
      \<or> (polling_call (last tr) \<and> get_ev s' fd AND poll_mask K = 0 \<and>
          (keeps_events cb fd \<longrightarrow> get_ev s' fd = get_ev s fd AND NOT (poll_mask K))))"
proof -
  have old: "r = 0 \<and> tr \<noteq> [] \<and>
     ((what (last tr) = Conn_session_complete (CO_FL_INIT_SESS K) \<and>
         (result (last tr) < 0 \<or> embryonic_error K (seen (last tr))) \<and>
         (\<exists>s0. s' = snd (conn_session_complete cb conn (CO_FL_INIT_SESS K) s0)))
      \<or> (polling_call (last tr) \<and> get_ev s' fd AND poll_mask K = 0))"
  proof -
    from conn_fd_handler_end[OF assms] obtain st' where e: "cycle_end K cb fd conn st' (r, s', tr)"
      by blast
    show ?thesis
    proof (cases "(r, s', tr) = leave K cb fd conn st'")
      case False
      with e show ?thesis by (auto simp: cycle_end_def)
    next
      case l: True
      show ?thesis
      proof (cases "embryonic_error K (get_flags (fst st') conn)")
        case True
        from l[unfolded leave_abort[OF True]] True show ?thesis by auto
      next
        case False
        from leave_last_normal[OF False, of cb fd] leave_ev_normal[OF False, of cb fd]
          leave_result[of K cb fd conn st'] l[symmetric]
        show ?thesis by simp
      qed
    qed
  qed
  have sc: "\<not> polling_call (last tr)"
    if "what (last tr) = Conn_session_complete (CO_FL_INIT_SESS K)"
    using that by (simp add: polling_call_def)
  show ?thesis
  proof (cases "keeps_events cb fd")
    case False
    with old show ?thesis by blast
  next
    case True
    note kept = handler_events_kept[OF True assms]
    show ?thesis
    proof (cases "polling_call (last tr)")
      case p: True
      with old sc kept show ?thesis by auto
    next
      case np: False
      with old kept show ?thesis by auto
    qed
  qed
qed

text \<open>The third scenario of the specification without the connect wait: input and
  output are reported on an idle connection; both callbacks run, the connection is
  marked established and read interest is registered.\<close>

lemma run_quiet:
  "conn_fd_handler hdr cb_quiet 7 (s_at (Some 0) 0x05 0)
   = Some (0, (set_flags 0 0x00100002 (set_ev 7 0 (s_at (Some 0) 0x05 0)),
       [Call Conn_sock_stop_both 0 0, Call App_recv 0 0, Call App_send 0 0,
        Call Conn_cond_update_polling 2 0, Call (Fd (Fd_want_recv 7)) 2 0]))"
  by (simp add: conn_fd_handler_def process_handshake.simps handshake_loop.simps
      enter_data_phase_def data_phase_def recv_step_def send_step_def notify_step_def
      leave_def conn_cond_update_polling_def conn_set_polling_def
      invoke_def invoke_void_def get_flags_def set_flags_def get_ev_def set_ev_def Let_def
      hdr_def cb_quiet_def s_at_def fun_eq_iff)

lemma keeps_events_quiet: "keeps_events cb_quiet fd"
  by (simp add: keeps_events_def cb_quiet_def)

lemma keeps_events_bad_proxy: "keeps_events cb_bad_proxy fd"
  by (simp add: keeps_events_def cb_bad_proxy_def cb_quiet_def)

theorem conn_fd_handler_events_witness:
  "conn_fd_handler hdr cb_quiet 7 (s_at (Some 0) 0x05 0)
     = Some (0, (set_flags 0 0x00100002 (set_ev 7 0 (s_at (Some 0) 0x05 0)),
       [Call Conn_sock_stop_both 0 0, Call App_recv 0 0, Call App_send 0 0,
        Call Conn_cond_update_polling 2 0, Call (Fd (Fd_want_recv 7)) 2 0])) \<and>
   owner (fdtab (s_at (Some 0) 0x05 0) 7) = Some 0 \<and>
   keeps_events cb_quiet 7 \<and>
   get_ev (set_flags 0 0x00100002 (set_ev 7 0 (s_at (Some 0) 0x05 0))) 7 AND poll_mask hdr = 0 \<and>
   get_ev (set_flags 0 0x00100002 (set_ev 7 0 (s_at (Some 0) 0x05 0))) 7
     = get_ev (s_at (Some 0) 0x05 0) 7 AND NOT (poll_mask hdr) \<and>
   conn_fd_handler hdr cb_bad_proxy 7 (s_at (Some 0) 0x01 0x00100890)
     = Some (0, (set_flags 0 0x00100891 (s_at (Some 0) 0x01 0x00100890),
          [Call (Conn_recv_proxy 0x80) 0x00100890 0,
           Call (Conn_session_complete 0x800) 0x00100891 0])) \<and>
   owner (fdtab (s_at (Some 0) 0x01 0x00100890) 7) = Some 0 \<and>
   keeps_events cb_bad_proxy 7 \<and>
   get_ev (set_flags 0 0x00100891 (s_at (Some 0) 0x01 0x00100890)) 7
     = get_ev (s_at (Some 0) 0x01 0x00100890) 7 \<and>
   get_ev (s_at (Some 0) 0x01 0x00100890) 7 = 0x01"
proof -
  have o: "owner (fdtab (s_at (Some 0) 0x05 0) 7) = Some 0" by (simp add: s_at_def)
  have o': "owner (fdtab (s_at (Some 0) 0x01 0x00100890) 7) = Some 0" by (simp add: s_at_def)
  note t = conn_fd_handler_events[OF run_quiet o]
  note t' = conn_fd_handler_events[OF run_bad_proxy o']
  have a: "get_ev (set_flags 0 0x00100002 (set_ev 7 0 (s_at (Some 0) 0x05 0))) 7 AND poll_mask hdr = 0"
    "get_ev (set_flags 0 0x00100002 (set_ev 7 0 (s_at (Some 0) 0x05 0))) 7
       = get_ev (s_at (Some 0) 0x05 0) 7 AND NOT (poll_mask hdr)"
    using t keeps_events_quiet[of 7] by (simp_all add: polling_call_def)
  have b: "get_ev (set_flags 0 0x00100891 (s_at (Some 0) 0x01 0x00100890)) 7
     = get_ev (s_at (Some 0) 0x01 0x00100890) 7"
    using t' keeps_events_bad_proxy[of 7] by (simp add: polling_call_def)
  have c: "get_ev (s_at (Some 0) 0x01 0x00100890) 7 = 0x01"
    by (simp add: get_ev_def s_at_def)
  from run_quiet o keeps_events_quiet[of 7] a run_bad_proxy o' keeps_events_bad_proxy[of 7] b c
  show ?thesis by blast
qed




text \<open>The loop left with no handshake pending: the cycle goes on through lines 52 to
  93, and from a data phase that does not go back to the loop into the leave path.\<close>

lemma process_handshake_data_leave:
  "handshake_loop K cb conn st = Some (Next stb) \<Longrightarrow>
   enter_data_phase K cb conn stb = Next sx \<Longrightarrow>
   data_phase K cb fd conn sx = Goto_leave sy \<or> data_phase K cb fd conn sx = Next sy \<Longrightarrow>
   process_handshake K cb fd conn st = Some (leave K cb fd conn sy)"
  by (subst process_handshake.simps) auto













text \<open>
  C10. The error bit is tested at the start of an iteration only. Take an iteration
  that starts in the loop with the error bit clear and \<^verbatim>\<open>CO_FL_ACCEPT_PROXY\<close>
  pending, in which \<^verbatim>\<open>conn_recv_proxy\<close> returns non-zero and leaves the error bit set
  and \<^verbatim>\<open>CO_FL_SI_SEND_PROXY\<close> pending. Then \<^verbatim>\<open>conn_si_send_proxy\<close> is called in
  the same iteration, with the error bit set at the moment of the call; and when it
  returns non-zero with the handshake and the error still set, the loop goes to
  \<^verbatim>\<open>leave\<close> at the start of the next iteration without another call.
\<close>

theorem handshake_error_tested_at_start:
  assumes "get_flags (fst st) conn AND CO_FL_HANDSHAKE K \<noteq> 0"
    and "get_flags (fst st) conn AND CO_FL_ERROR K = 0"
    and "get_flags (fst st) conn AND CO_FL_ACCEPT_PROXY K \<noteq> 0"
    and "conn_recv_proxy cb conn (CO_FL_ACCEPT_PROXY K) (fst st) = (r1, s1)"
    and "r1 \<noteq> 0"
    and "get_flags s1 conn AND CO_FL_ERROR K \<noteq> 0"
    and "get_flags s1 conn AND CO_FL_SI_SEND_PROXY K \<noteq> 0"
    and "conn_si_send_proxy cb conn (CO_FL_SI_SEND_PROXY K) s1 = (r2, s2)"
  shows "added st (ctl_arg (handshake_body K cb conn st))
           = [Call (Conn_recv_proxy (CO_FL_ACCEPT_PROXY K)) (get_flags (fst st) conn) r1,
              Call (Conn_si_send_proxy (CO_FL_SI_SEND_PROXY K)) (get_flags s1 conn) r2]
     \<and> (r2 \<noteq> 0 \<and> get_flags s2 conn AND CO_FL_HANDSHAKE K \<noteq> 0
          \<and> get_flags s2 conn AND CO_FL_ERROR K \<noteq> 0
        \<longrightarrow> handshake_body K cb conn st
              = Next (s2, snd st @
                  [Call (Conn_recv_proxy (CO_FL_ACCEPT_PROXY K)) (get_flags (fst st) conn) r1,
                   Call (Conn_si_send_proxy (CO_FL_SI_SEND_PROXY K)) (get_flags s1 conn) r2])
            \<and> handshake_loop K cb conn st
              = Some (Goto_leave (s2, snd st @
                  [Call (Conn_recv_proxy (CO_FL_ACCEPT_PROXY K)) (get_flags (fst st) conn) r1,
                   Call (Conn_si_send_proxy (CO_FL_SI_SEND_PROXY K)) (get_flags s1 conn) r2])))"
proof -
  let ?tr = "snd st @
      [Call (Conn_recv_proxy (CO_FL_ACCEPT_PROXY K)) (get_flags (fst st) conn) r1,
       Call (Conn_si_send_proxy (CO_FL_SI_SEND_PROXY K)) (get_flags s1 conn) r2]"
  have a: "accept_proxy_step K cb conn st
      = (r1, (s1, snd st @ [Call (Conn_recv_proxy (CO_FL_ACCEPT_PROXY K)) (get_flags (fst st) conn) r1]))"
    using assms(3,4) by (simp add: accept_proxy_step_def invoke_def)
  have b: "send_proxy_step K cb conn
       (s1, snd st @ [Call (Conn_recv_proxy (CO_FL_ACCEPT_PROXY K)) (get_flags (fst st) conn) r1])
      = (r2, (s2, ?tr))"
    using assms(7,8) by (simp add: send_proxy_step_def invoke_def)
  have body: "handshake_body K cb conn st = (if r2 = 0 then Goto_leave (s2, ?tr) else Next (s2, ?tr))"
    using assms(2,5) by (simp add: handshake_body_def a b)
  have 1: "added st (ctl_arg (handshake_body K cb conn st))
           = [Call (Conn_recv_proxy (CO_FL_ACCEPT_PROXY K)) (get_flags (fst st) conn) r1,
              Call (Conn_si_send_proxy (CO_FL_SI_SEND_PROXY K)) (get_flags s1 conn) r2]"
    unfolding body by (simp add: added_def)
  have 2: "handshake_body K cb conn st = Next (s2, ?tr) \<and>
      handshake_loop K cb conn st = Some (Goto_leave (s2, ?tr))"
    if "r2 \<noteq> 0" "get_flags s2 conn AND CO_FL_HANDSHAKE K \<noteq> 0"
      "get_flags s2 conn AND CO_FL_ERROR K \<noteq> 0"
  proof -
    from body that(1) have n: "handshake_body K cb conn st = Next (s2, ?tr)" by simp
    have "handshake_loop K cb conn st = handshake_loop K cb conn (s2, ?tr)"
      using handshake_loop_again[OF assms(1) n] .
    also have "\<dots> = Some (Goto_leave (s2, ?tr))"
      using that(2,3) by (intro handshake_loop_error) simp_all
    finally show ?thesis using n by simp
  qed
  from 1 2 show ?thesis by blast
qed

text \<open>A PROXY parser that latches the error, clears its bit and returns 1, while the
  outgoing PROXY header is still to be sent.\<close>

theorem handshake_error_tested_at_start_witness:
  "get_flags (fst (s_at (Some 0) 0x01 0x000000A0, [])) 0 AND CO_FL_HANDSHAKE hdr \<noteq> 0 \<and>
   get_flags (fst (s_at (Some 0) 0x01 0x000000A0, [])) 0 AND CO_FL_ERROR hdr = 0 \<and>
   get_flags (fst (s_at (Some 0) 0x01 0x000000A0, [])) 0 AND CO_FL_ACCEPT_PROXY hdr \<noteq> 0 \<and>
   conn_recv_proxy cb_latch 0 (CO_FL_ACCEPT_PROXY hdr) (fst (s_at (Some 0) 0x01 0x000000A0, []))
     = (1, set_flags 0 0x21 (s_at (Some 0) 0x01 0x000000A0)) \<and>
   get_flags (set_flags 0 0x21 (s_at (Some 0) 0x01 0x000000A0)) 0 AND CO_FL_ERROR hdr \<noteq> 0 \<and>
   get_flags (set_flags 0 0x21 (s_at (Some 0) 0x01 0x000000A0)) 0 AND CO_FL_SI_SEND_PROXY hdr \<noteq> 0 \<and>
   conn_si_send_proxy cb_latch 0 (CO_FL_SI_SEND_PROXY hdr)
       (set_flags 0 0x21 (s_at (Some 0) 0x01 0x000000A0))
     = (1, set_flags 0 0x21 (s_at (Some 0) 0x01 0x000000A0)) \<and>
   added (s_at (Some 0) 0x01 0x000000A0, [])
       (ctl_arg (handshake_body hdr cb_latch 0 (s_at (Some 0) 0x01 0x000000A0, [])))
     = [Call (Conn_recv_proxy 0x80) 0xA0 1, Call (Conn_si_send_proxy 0x20) 0x21 1] \<and>
   handshake_loop hdr cb_latch 0 (s_at (Some 0) 0x01 0x000000A0, [])
     = Some (Goto_leave (set_flags 0 0x21 (s_at (Some 0) 0x01 0x000000A0),
          [Call (Conn_recv_proxy 0x80) 0xA0 1, Call (Conn_si_send_proxy 0x20) 0x21 1]))"
proof -
  let ?s = "s_at (Some 0) 0x01 0x000000A0"
  let ?s1 = "set_flags 0 0x21 (s_at (Some 0) 0x01 0x000000A0)"
  have h: "get_flags (fst (?s, [])) 0 AND CO_FL_HANDSHAKE hdr \<noteq> 0"
    "get_flags (fst (?s, [])) 0 AND CO_FL_ERROR hdr = 0"
    "get_flags (fst (?s, [])) 0 AND CO_FL_ACCEPT_PROXY hdr \<noteq> 0"
    by (simp_all add: get_flags_def s_at_def hdr_def)
  have r: "conn_recv_proxy cb_latch 0 (CO_FL_ACCEPT_PROXY hdr) (fst (?s, [])) = (1, ?s1)"
    by (simp add: cb_latch_def cb_quiet_def hdr_def get_flags_def s_at_def)
  have g: "get_flags ?s1 0 AND CO_FL_ERROR hdr \<noteq> 0"
    "get_flags ?s1 0 AND CO_FL_SI_SEND_PROXY hdr \<noteq> 0"
    "get_flags ?s1 0 AND CO_FL_HANDSHAKE hdr \<noteq> 0"
    by (simp_all add: hdr_def)
  have w: "conn_si_send_proxy cb_latch 0 (CO_FL_SI_SEND_PROXY hdr) ?s1 = (1, ?s1)"
    by (simp add: cb_latch_def cb_quiet_def)
  have one: "(1::int) \<noteq> 0" by simp
  have gs: "get_flags ?s 0 = 0xA0" by (simp add: get_flags_def s_at_def)
  note t = handshake_error_tested_at_start[OF h r one g(1,2) w]
  have a: "added (?s, []) (ctl_arg (handshake_body hdr cb_latch 0 (?s, [])))
     = [Call (Conn_recv_proxy 0x80) 0xA0 1, Call (Conn_si_send_proxy 0x20) 0x21 1]"
    using t[THEN conjunct1] by (simp add: gs) (simp add: hdr_def)
  have b: "handshake_loop hdr cb_latch 0 (?s, [])
     = Some (Goto_leave (?s1, [Call (Conn_recv_proxy 0x80) 0xA0 1, Call (Conn_si_send_proxy 0x20) 0x21 1]))"
    using t[THEN conjunct2] g(1,3) by (simp add: gs) (simp add: hdr_def)
  from h r g(1,2) w a b show ?thesis by blast
qed

lemma recv_step_trace:
  "snd (recv_step K cb fd conn st) = snd st @
     (if get_ev (fst st) fd AND (FD_POLL_IN K OR FD_POLL_HUP K OR FD_POLL_ERR K) \<noteq> 0
      then [Call App_recv (get_flags (fst st) conn) 0] else [])"
  by (simp add: recv_step_def invoke_void_simps)

lemma send_step_trace:
  "snd (send_step K cb fd conn st) = snd st @
     (if get_ev (fst st) fd AND (FD_POLL_OUT K OR FD_POLL_ERR K) \<noteq> 0
      then [Call App_send (get_flags (fst st) conn) 0] else [])"
  by (simp add: send_step_def invoke_void_simps)

text \<open>The calls of the data phase, in full.\<close>

lemma data_phase_trace:
  "added st (ctl_arg (data_phase K cb fd conn st)) =
     (if get_ev (fst st) fd AND (FD_POLL_IN K OR FD_POLL_HUP K OR FD_POLL_ERR K) \<noteq> 0
      then [Call App_recv (get_flags (fst st) conn) 0] else []) @
     (if data_ok K conn (recv_step K cb fd conn st)
      then (if get_ev (fst (recv_step K cb fd conn st)) fd AND (FD_POLL_OUT K OR FD_POLL_ERR K) \<noteq> 0
            then [Call App_send (get_flags (fst (recv_step K cb fd conn st)) conn) 0] else []) @
           (if data_ok K conn (send_step K cb fd conn (recv_step K cb fd conn st)) \<and>
               get_flags (fst (send_step K cb fd conn (recv_step K cb fd conn st))) conn
                 AND CO_FL_WAIT_L4_CONN K \<noteq> 0
            then [Call Tcp_connect_probe
                    (get_flags (fst (send_step K cb fd conn (recv_step K cb fd conn st))) conn)
                    (fst (tcp_connect_probe cb conn
                            (fst (send_step K cb fd conn (recv_step K cb fd conn st)))))]
            else [])
      else [])"
  by (simp add: added_def data_phase_def Let_def data_ok_def invoke_simps
      recv_step_trace send_step_trace)

lemma data_phase_order:
  "subseq (map what (added st (ctl_arg (data_phase K cb fd conn st))))
     [App_recv, App_send, Tcp_connect_probe]"
  unfolding data_phase_trace by simp

lemma data_phase_recv_called:
  "(App_recv \<in> what ` set (added st (ctl_arg (data_phase K cb fd conn st))))
     = (get_ev (fst st) fd AND (FD_POLL_IN K OR FD_POLL_HUP K OR FD_POLL_ERR K) \<noteq> 0)"
  unfolding data_phase_trace
  by (cases "get_ev (fst st) fd AND (FD_POLL_IN K OR FD_POLL_HUP K OR FD_POLL_ERR K) = 0";
      cases "data_ok K conn (recv_step K cb fd conn st)";
      cases "get_ev (fst (recv_step K cb fd conn st)) fd AND (FD_POLL_OUT K OR FD_POLL_ERR K) = 0";
      cases "data_ok K conn (send_step K cb fd conn (recv_step K cb fd conn st))";
      cases "get_flags (fst (send_step K cb fd conn (recv_step K cb fd conn st))) conn
               AND CO_FL_WAIT_L4_CONN K = 0";
      simp)

lemma data_phase_send_called:
  "(App_send \<in> what ` set (added st (ctl_arg (data_phase K cb fd conn st))))
     = (data_ok K conn (recv_step K cb fd conn st) \<and>
        get_ev (fst (recv_step K cb fd conn st)) fd AND (FD_POLL_OUT K OR FD_POLL_ERR K) \<noteq> 0)"
  unfolding data_phase_trace
  by (cases "get_ev (fst st) fd AND (FD_POLL_IN K OR FD_POLL_HUP K OR FD_POLL_ERR K) = 0";
      cases "data_ok K conn (recv_step K cb fd conn st)";
      cases "get_ev (fst (recv_step K cb fd conn st)) fd AND (FD_POLL_OUT K OR FD_POLL_ERR K) = 0";
      cases "data_ok K conn (send_step K cb fd conn (recv_step K cb fd conn st))";
      cases "get_flags (fst (send_step K cb fd conn (recv_step K cb fd conn st))) conn
               AND CO_FL_WAIT_L4_CONN K = 0";
      simp)

lemma data_phase_probe_called:
  "(Tcp_connect_probe \<in> what ` set (added st (ctl_arg (data_phase K cb fd conn st))))
     = (data_ok K conn (recv_step K cb fd conn st) \<and>
        data_ok K conn (send_step K cb fd conn (recv_step K cb fd conn st)) \<and>
        get_flags (fst (send_step K cb fd conn (recv_step K cb fd conn st))) conn
          AND CO_FL_WAIT_L4_CONN K \<noteq> 0)"
  unfolding data_phase_trace
  by (cases "get_ev (fst st) fd AND (FD_POLL_IN K OR FD_POLL_HUP K OR FD_POLL_ERR K) = 0";
      cases "data_ok K conn (recv_step K cb fd conn st)";
      cases "get_ev (fst (recv_step K cb fd conn st)) fd AND (FD_POLL_OUT K OR FD_POLL_ERR K) = 0";
      cases "data_ok K conn (send_step K cb fd conn (recv_step K cb fd conn st))";
      cases "get_flags (fst (send_step K cb fd conn (recv_step K cb fd conn st))) conn
               AND CO_FL_WAIT_L4_CONN K = 0";
      simp)

text \<open>Where the data phase goes next.\<close>

lemma data_phase_to_handshake:
  "(\<exists>x. data_phase K cb fd conn st = Goto_process_handshake x) =
     ((get_flags (fst (recv_step K cb fd conn st)) conn AND CO_FL_ERROR K = 0 \<and>
       get_flags (fst (recv_step K cb fd conn st)) conn AND CO_FL_HANDSHAKE K \<noteq> 0)
      \<or> (data_ok K conn (recv_step K cb fd conn st) \<and>
          get_flags (fst (send_step K cb fd conn (recv_step K cb fd conn st))) conn
            AND CO_FL_ERROR K = 0 \<and>
          get_flags (fst (send_step K cb fd conn (recv_step K cb fd conn st))) conn
            AND CO_FL_HANDSHAKE K \<noteq> 0))"
  by (simp add: data_phase_def Let_def data_ok_def)

lemma data_phase_to_leave:
  "(\<exists>x. data_phase K cb fd conn st = Goto_leave x) =
     (get_flags (fst (recv_step K cb fd conn st)) conn AND CO_FL_ERROR K \<noteq> 0
      \<or> (data_ok K conn (recv_step K cb fd conn st) \<and>
          get_flags (fst (send_step K cb fd conn (recv_step K cb fd conn st))) conn
            AND CO_FL_ERROR K \<noteq> 0)
      \<or> (data_ok K conn (recv_step K cb fd conn st) \<and>
          data_ok K conn (send_step K cb fd conn (recv_step K cb fd conn st)) \<and>
          get_flags (fst (send_step K cb fd conn (recv_step K cb fd conn st))) conn
            AND CO_FL_WAIT_L4_CONN K \<noteq> 0 \<and>
          fst (tcp_connect_probe cb conn
                 (fst (send_step K cb fd conn (recv_step K cb fd conn st)))) = 0))"
  by (auto simp add: data_phase_def Let_def data_ok_def invoke_simps)

lemma data_phase_send_before_handshake:
  "get_flags (fst (recv_step K cb fd conn st)) conn AND CO_FL_ERROR K = 0 \<Longrightarrow>
   get_flags (fst (recv_step K cb fd conn st)) conn AND CO_FL_HANDSHAKE K \<noteq> 0 \<Longrightarrow>
   data_phase K cb fd conn st = Goto_process_handshake (recv_step K cb fd conn st)"
  by (simp add: data_phase_def Let_def)

text \<open>The flags at each call of a cycle.\<close>

lemma ordered_ext_refl: "ordered_ext K a a"
  by (simp add: ordered_ext_def)

lemma ordered_ext_trans: "ordered_ext K a b \<Longrightarrow> ordered_ext K b c \<Longrightarrow> ordered_ext K a c"
  by (auto simp: ordered_ext_def)

lemma ordered_ext_added:
  "snd st' = snd st @ added st st' \<Longrightarrow> list_all (phase_order K) (added st st')
     \<Longrightarrow> ordered_ext K st st'"
  by (auto simp: ordered_ext_def)

lemma handshake_body_phase:
  assumes "get_flags (fst st) conn AND CO_FL_HANDSHAKE K \<noteq> 0"
  shows "ordered_ext K st (ctl_arg (handshake_body K cb conn st))"
  unfolding ordered_ext_def handshake_body_trace using assms
  by (simp add: accept_proxy_step_trace send_proxy_step_trace phase_order_def)

lemma enter_data_phase_phase:
  assumes "get_flags (fst st) conn AND CO_FL_HANDSHAKE K = 0"
  shows "ordered_ext K st (ctl_arg (enter_data_phase K cb conn st))"
  unfolding ordered_ext_def using assms
  by (simp add: enter_data_phase_def Let_def invoke_simps invoke_void_simps phase_order_def)

lemma data_phase_prefix:
  "snd (ctl_arg (data_phase K cb fd conn st)) = snd st @ added st (ctl_arg (data_phase K cb fd conn st))"
  by (simp add: added_def data_phase_def Let_def invoke_simps recv_step_trace send_step_trace)

lemma data_phase_phase:
  "ordered_ext K st (ctl_arg (data_phase K cb fd conn st))"
proof (rule ordered_ext_added[OF data_phase_prefix])
  show "list_all (phase_order K) (added st (ctl_arg (data_phase K cb fd conn st)))"
    unfolding data_phase_trace by (simp add: phase_order_def data_ok_def)
qed

lemma leave_phase: "ordered_ext K st (snd (leave K cb fd conn st))"
proof (rule ordered_ext_added[OF leave_trace])
  show "list_all (phase_order K) (added st (snd (leave K cb fd conn st)))"
  proof (cases "embryonic_error K (get_flags (fst st) conn)")
    case True
    then show ?thesis by (simp add: leave_calls_abort phase_order_def)
  next
    case False
    from leave_calls_normal[OF False, of cb fd] obtain ys where
      ys: "added st (snd (leave K cb fd conn st)) =
            (if get_flags (fst st) conn AND CO_FL_NOTIFY_SI K \<noteq> 0
             then [Call Conn_notify_si (get_flags (fst st) conn) 0] else []) @ ys"
        "list_all polling_call ys" by blast
    from ys(2) have "list_all (phase_order K) ys"
      by (auto simp: list_all_iff polling_call_def phase_order_def split: callee.splits)
    then show ?thesis unfolding ys(1) by (simp add: phase_order_def)
  qed
qed

lemma conn_fd_handler_phase:
  assumes "conn_fd_handler K cb fd s = Some res"
  shows "list_all (phase_order K) (snd (snd res))"
proof (cases "owner (fdtab s fd)")
  case None
  with assms show ?thesis by (auto simp add: conn_fd_handler_def)
next
  case (Some conn)
  with assms have run: "process_handshake K cb fd conn (s, []) = Some res"
    by (simp add: conn_fd_handler_def)
  have "\<exists>st'. ordered_ext K (s, []) st' \<and> cycle_end K cb fd conn st' res"
  proof (rule process_handshake_rel[where R = "ordered_ext K", OF _ _ _ _ _ run])
    show "\<And>a. ordered_ext K a a" by (rule ordered_ext_refl)
    show "\<And>a b c. ordered_ext K a b \<Longrightarrow> ordered_ext K b c \<Longrightarrow> ordered_ext K a c"
      by (rule ordered_ext_trans)
    show "\<And>st. get_flags (fst st) conn AND CO_FL_HANDSHAKE K \<noteq> 0
            \<Longrightarrow> ordered_ext K st (ctl_arg (handshake_body K cb conn st))"
      by (rule handshake_body_phase)
    show "\<And>st. get_flags (fst st) conn AND CO_FL_HANDSHAKE K = 0
            \<Longrightarrow> ordered_ext K st (ctl_arg (enter_data_phase K cb conn st))"
      by (rule enter_data_phase_phase)
    show "\<And>st. ordered_ext K st (ctl_arg (data_phase K cb fd conn st))"
      by (rule data_phase_phase)
  qed
  then obtain st' where st': "ordered_ext K (s, []) st'" "cycle_end K cb fd conn st' res"
    by blast
  from st'(2) have "ordered_ext K st' (snd res)"
    unfolding cycle_end_def using leave_phase[of K st' cb fd conn] ordered_ext_refl[of K st'] by auto
  from ordered_ext_trans[OF st'(1) this] show ?thesis by (simp add: ordered_ext_def)
qed

text \<open>A \<^verbatim>\<open>goto process_handshake\<close> of the data phase starts again at the label.\<close>

lemma process_handshake_again:
  "handshake_loop K cb conn st = Some (Next st1) \<Longrightarrow>
   enter_data_phase K cb conn st1 = Next st2 \<Longrightarrow>
   data_phase K cb fd conn st2 = Goto_process_handshake st3 \<Longrightarrow>
   process_handshake K cb fd conn st = process_handshake K cb fd conn st3"
  by (subst process_handshake.simps) simp

text \<open>The two callbacks of the data phase, memory and calls.\<close>

lemma recv_step_eq:
  "recv_step K cb fd conn st =
     (if get_ev (fst st) fd AND (FD_POLL_IN K OR FD_POLL_HUP K OR FD_POLL_ERR K) \<noteq> 0
      then (app_cb_recv cb conn (fst st), snd st @ [Call App_recv (get_flags (fst st) conn) 0])
      else st)"
  by (simp add: recv_step_def invoke_void_def)

lemma send_step_eq:
  "send_step K cb fd conn st =
     (if get_ev (fst st) fd AND (FD_POLL_OUT K OR FD_POLL_ERR K) \<noteq> 0
      then (app_cb_send cb conn (fst st), snd st @ [Call App_send (get_flags (fst st) conn) 0])
      else st)"
  by (simp add: send_step_def invoke_void_def)

text \<open>Where the data phase ends, and with what.\<close>

lemma data_phase_eq:
  "data_phase K cb fd conn st =
     (if get_flags (fst (recv_step K cb fd conn st)) conn AND CO_FL_ERROR K \<noteq> 0
      then Goto_leave (recv_step K cb fd conn st)
      else if get_flags (fst (recv_step K cb fd conn st)) conn AND CO_FL_HANDSHAKE K \<noteq> 0
      then Goto_process_handshake (recv_step K cb fd conn st)
      else if get_flags (fst (send_step K cb fd conn (recv_step K cb fd conn st))) conn
                AND CO_FL_ERROR K \<noteq> 0
      then Goto_leave (send_step K cb fd conn (recv_step K cb fd conn st))
      else if get_flags (fst (send_step K cb fd conn (recv_step K cb fd conn st))) conn
                AND CO_FL_HANDSHAKE K \<noteq> 0
      then Goto_process_handshake (send_step K cb fd conn (recv_step K cb fd conn st))
      else if get_flags (fst (send_step K cb fd conn (recv_step K cb fd conn st))) conn
                AND CO_FL_WAIT_L4_CONN K \<noteq> 0
      then (if fst (tcp_connect_probe cb conn
                      (fst (send_step K cb fd conn (recv_step K cb fd conn st)))) = 0
            then Goto_leave else Next)
             (snd (tcp_connect_probe cb conn
                     (fst (send_step K cb fd conn (recv_step K cb fd conn st)))),
              snd (send_step K cb fd conn (recv_step K cb fd conn st)) @
                [Call Tcp_connect_probe
                   (get_flags (fst (send_step K cb fd conn (recv_step K cb fd conn st))) conn)
                   (fst (tcp_connect_probe cb conn
                           (fst (send_step K cb fd conn (recv_step K cb fd conn st)))))])
      else Next (send_step K cb fd conn (recv_step K cb fd conn st)))"
  by (simp add: data_phase_def Let_def invoke_def)

lemma handshake_loop_next_clear:
  "handshake_loop K cb conn st = Some (Next stb) \<Longrightarrow>
     get_flags (fst stb) conn AND CO_FL_HANDSHAKE K = 0"
  using handshake_loop_exit[of K cb conn st "Next stb"] by (simp add: loop_exit_def)

lemma conn_fd_handler_owned:
  "owner (fdtab s fd) = Some conn \<Longrightarrow>
     conn_fd_handler K cb fd s = process_handshake K cb fd conn (s, [])"
  by (simp add: conn_fd_handler_def)

text \<open>The place of the receive callback in a cycle.\<close>

lemma recv_placed_append:
  "recv_placed K r (xs @ ys)
     = (recv_placed K r xs \<and> recv_placed K (foldl (ready_step K) r xs) ys)"
  by (induction xs arbitrary: r) auto

lemma recv_placed_none:
  "list_all (\<lambda>e. what e \<noteq> App_recv) xs \<Longrightarrow> recv_placed K r xs"
  by (induction xs arbitrary: r) auto

lemma recv_ext_refl: "recv_ext K a a"
  by (simp add: recv_ext_def)

lemma recv_ext_trans: "recv_ext K a b \<Longrightarrow> recv_ext K b c \<Longrightarrow> recv_ext K a c"
  by (auto simp: recv_ext_def recv_placed_append)

lemma recv_ext_added:
  "snd st' = snd st @ added st st' \<Longrightarrow> list_all (\<lambda>e. what e \<noteq> App_recv) (added st st')
     \<Longrightarrow> recv_ext K st st'"
  unfolding recv_ext_def using recv_placed_none by blast

lemma handshake_body_recv_ext:
  "recv_ext K st (ctl_arg (handshake_body K cb conn st))"
  unfolding recv_ext_def handshake_body_trace
  by (simp add: accept_proxy_step_trace send_proxy_step_trace)

lemma enter_data_phase_recv_ext:
  "recv_ext K st (ctl_arg (enter_data_phase K cb conn st))"
  unfolding recv_ext_def
  by (simp add: enter_data_phase_def Let_def invoke_simps invoke_void_simps)

lemma enter_data_phase_ready:
  assumes "get_flags (fst stb) conn AND CO_FL_HANDSHAKE K = 0"
    and "enter_data_phase K cb conn stb = Next st"
  shows "foldl (ready_step K) r (snd st) \<or> get_flags (fst st) conn AND CO_FL_HANDSHAKE K = 0"
proof -
  have "foldl (ready_step K) r (snd (ctl_arg (enter_data_phase K cb conn stb)))
        \<or> get_flags (fst (ctl_arg (enter_data_phase K cb conn stb))) conn AND CO_FL_HANDSHAKE K = 0"
    using assms(1)
    by (simp add: enter_data_phase_def Let_def invoke_simps invoke_void_simps
        ready_step_def preamble_call_def)
  then show ?thesis by (simp add: assms(2))
qed

lemma data_phase_recv_ext:
  assumes "foldl (ready_step K) False (snd st) \<or> get_flags (fst st) conn AND CO_FL_HANDSHAKE K = 0"
  shows "recv_ext K st (ctl_arg (data_phase K cb fd conn st))"
proof -
  have "recv_placed K (foldl (ready_step K) False (snd st))
          (added st (ctl_arg (data_phase K cb fd conn st)))"
    unfolding data_phase_trace using assms by (auto simp: recv_placed_append)
  with data_phase_prefix[of K cb fd conn st] show ?thesis
    unfolding recv_ext_def by blast
qed

lemma leave_recv_ext: "recv_ext K st (snd (leave K cb fd conn st))"
proof (rule recv_ext_added[OF leave_trace])
  from leave_no_data[of st K cb fd conn]
  show "list_all (\<lambda>e. what e \<noteq> App_recv) (added st (snd (leave K cb fd conn st)))"
    by (auto simp: list_all_iff data_call_def)
qed

lemma conn_fd_handler_recv_placed:
  assumes "conn_fd_handler K cb fd s = Some res"
  shows "recv_placed K False (snd (snd res))"
proof (cases "owner (fdtab s fd)")
  case None
  with assms show ?thesis by (auto simp add: conn_fd_handler_def)
next
  case (Some conn)
  with assms have run: "process_handshake K cb fd conn (s, []) = Some res"
    by (simp add: conn_fd_handler_def)
  have "\<exists>st'. recv_ext K (s, []) st' \<and> cycle_end K cb fd conn st' res"
  proof (rule process_handshake_rel_gen[where R = "recv_ext K", OF _ _ _ _ _ run])
    show "\<And>a. recv_ext K a a" by (rule recv_ext_refl)
    show "\<And>a b c. recv_ext K a b \<Longrightarrow> recv_ext K b c \<Longrightarrow> recv_ext K a c"
      by (rule recv_ext_trans)
    show "\<And>st. get_flags (fst st) conn AND CO_FL_HANDSHAKE K \<noteq> 0
            \<Longrightarrow> recv_ext K st (ctl_arg (handshake_body K cb conn st))"
      by (rule handshake_body_recv_ext)
    show "\<And>st. get_flags (fst st) conn AND CO_FL_HANDSHAKE K = 0
            \<Longrightarrow> recv_ext K st (ctl_arg (enter_data_phase K cb conn st))"
      by (rule enter_data_phase_recv_ext)
    show "\<And>stb st. get_flags (fst stb) conn AND CO_FL_HANDSHAKE K = 0
            \<Longrightarrow> enter_data_phase K cb conn stb = Next st
            \<Longrightarrow> recv_ext K st (ctl_arg (data_phase K cb fd conn st))"
      by (rule data_phase_recv_ext[OF enter_data_phase_ready])
  qed
  then obtain st' where st': "recv_ext K (s, []) st'" "cycle_end K cb fd conn st' res"
    by blast
  from st'(2) have "recv_ext K st' (snd res)"
    unfolding cycle_end_def using leave_recv_ext[of K st' cb fd conn] recv_ext_refl[of K st'] by auto
  from recv_ext_trans[OF st'(1) this] show ?thesis by (simp add: recv_ext_def)
qed

text \<open>
  C3. The calls of the data phase are, in this order, at most one each of the receive
  callback, the send callback and the connect probe. The receive callback is called
  exactly when \<^verbatim>\<open>POLL_IN\<close>, \<^verbatim>\<open>POLL_HUP\<close> or \<^verbatim>\<open>POLL_ERR\<close> is in the event slot. The
  send callback is called exactly when after the receive step no error is latched and
  no handshake is pending, and \<^verbatim>\<open>POLL_OUT\<close> or \<^verbatim>\<open>POLL_ERR\<close> is in the slot. The
  probe is called exactly when the tests pass after both steps and
  \<^verbatim>\<open>CO_FL_WAIT_L4_CONN\<close> is set. The data phase goes back to the handshake loop exactly
  when, after either step, no error is latched and a handshake is pending (after the
  receive step this is before the send callback), and the cycle starts again at the
  label; it goes to \<^verbatim>\<open>leave\<close> by a \<^verbatim>\<open>goto\<close> exactly when an error is latched after
  either step or the probe returns 0. In a whole cycle the PROXY header is received
  only while a handshake is pending, and socket polling is stopped, data is sent and
  the connection is probed only while none is.

  Each callback runs on the memory the step before left and the tests that follow it
  read the flags it leaves: the receive and the send step are the callback applied to
  the memory with its call written down, or nothing; the data phase ends at the first
  of the tests that fires, with the memory and the calls of the step just made, the
  probe included. The data phase is entered from a handshake loop that ended with no
  handshake pending; when it ends at a \<^verbatim>\<open>goto leave\<close> or falls through, the rest of
  the cycle is the leave path on what it left; the cycle of an owned descriptor is the
  code from the label on, started with no calls. In a whole cycle the handshake comes
  before the data: every call of the receive callback is made with no handshake
  pending, or straight after the calls of lines 52 to 61, the first of which was made
  with none pending.
\<close>

theorem data_phase_sequence:
  "subseq (map what (added st (ctl_arg (data_phase K cb fd conn st))))
     [App_recv, App_send, Tcp_connect_probe]
   \<and> (App_recv \<in> what ` set (added st (ctl_arg (data_phase K cb fd conn st))))
       = (get_ev (fst st) fd AND (FD_POLL_IN K OR FD_POLL_HUP K OR FD_POLL_ERR K) \<noteq> 0)
   \<and> (App_send \<in> what ` set (added st (ctl_arg (data_phase K cb fd conn st))))
       = (data_ok K conn (recv_step K cb fd conn st) \<and>
          get_ev (fst (recv_step K cb fd conn st)) fd AND (FD_POLL_OUT K OR FD_POLL_ERR K) \<noteq> 0)
   \<and> (Tcp_connect_probe \<in> what ` set (added st (ctl_arg (data_phase K cb fd conn st))))
       = (data_ok K conn (recv_step K cb fd conn st) \<and>
          data_ok K conn (send_step K cb fd conn (recv_step K cb fd conn st)) \<and>
          get_flags (fst (send_step K cb fd conn (recv_step K cb fd conn st))) conn
            AND CO_FL_WAIT_L4_CONN K \<noteq> 0)
   \<and> (\<exists>x. data_phase K cb fd conn st = Goto_process_handshake x)
       = ((get_flags (fst (recv_step K cb fd conn st)) conn AND CO_FL_ERROR K = 0 \<and>
           get_flags (fst (recv_step K cb fd conn st)) conn AND CO_FL_HANDSHAKE K \<noteq> 0)
          \<or> (data_ok K conn (recv_step K cb fd conn st) \<and>
              get_flags (fst (send_step K cb fd conn (recv_step K cb fd conn st))) conn
                AND CO_FL_ERROR K = 0 \<and>
              get_flags (fst (send_step K cb fd conn (recv_step K cb fd conn st))) conn
                AND CO_FL_HANDSHAKE K \<noteq> 0))
   \<and> (\<exists>x. data_phase K cb fd conn st = Goto_leave x)
       = (get_flags (fst (recv_step K cb fd conn st)) conn AND CO_FL_ERROR K \<noteq> 0
          \<or> (data_ok K conn (recv_step K cb fd conn st) \<and>
              get_flags (fst (send_step K cb fd conn (recv_step K cb fd conn st))) conn
                AND CO_FL_ERROR K \<noteq> 0)
          \<or> (data_ok K conn (recv_step K cb fd conn st) \<and>
              data_ok K conn (send_step K cb fd conn (recv_step K cb fd conn st)) \<and>
              get_flags (fst (send_step K cb fd conn (recv_step K cb fd conn st))) conn
                AND CO_FL_WAIT_L4_CONN K \<noteq> 0 \<and>
              fst (tcp_connect_probe cb conn
                     (fst (send_step K cb fd conn (recv_step K cb fd conn st)))) = 0))
   \<and> (get_flags (fst (recv_step K cb fd conn st)) conn AND CO_FL_ERROR K = 0 \<and>
       get_flags (fst (recv_step K cb fd conn st)) conn AND CO_FL_HANDSHAKE K \<noteq> 0
       \<longrightarrow> data_phase K cb fd conn st = Goto_process_handshake (recv_step K cb fd conn st))
   \<and> (handshake_loop K cb conn sta = Some (Next stb) \<and>
       enter_data_phase K cb conn stb = Next st \<and>
       data_phase K cb fd conn st = Goto_process_handshake stc
       \<longrightarrow> process_handshake K cb fd conn sta = process_handshake K cb fd conn stc)
   \<and> (conn_fd_handler K cb fd s = Some res \<longrightarrow> list_all (phase_order K) (snd (snd res)))
   \<and> recv_step K cb fd conn st =
       (if get_ev (fst st) fd AND (FD_POLL_IN K OR FD_POLL_HUP K OR FD_POLL_ERR K) \<noteq> 0
        then (app_cb_recv cb conn (fst st), snd st @ [Call App_recv (get_flags (fst st) conn) 0])
        else st)
   \<and> send_step K cb fd conn sx =
       (if get_ev (fst sx) fd AND (FD_POLL_OUT K OR FD_POLL_ERR K) \<noteq> 0
        then (app_cb_send cb conn (fst sx), snd sx @ [Call App_send (get_flags (fst sx) conn) 0])
        else sx)
   \<and> data_phase K cb fd conn st =
       (if get_flags (fst (recv_step K cb fd conn st)) conn AND CO_FL_ERROR K \<noteq> 0
        then Goto_leave (recv_step K cb fd conn st)
        else if get_flags (fst (recv_step K cb fd conn st)) conn AND CO_FL_HANDSHAKE K \<noteq> 0
        then Goto_process_handshake (recv_step K cb fd conn st)
        else if get_flags (fst (send_step K cb fd conn (recv_step K cb fd conn st))) conn
                  AND CO_FL_ERROR K \<noteq> 0
        then Goto_leave (send_step K cb fd conn (recv_step K cb fd conn st))
        else if get_flags (fst (send_step K cb fd conn (recv_step K cb fd conn st))) conn
                  AND CO_FL_HANDSHAKE K \<noteq> 0
        then Goto_process_handshake (send_step K cb fd conn (recv_step K cb fd conn st))
        else if get_flags (fst (send_step K cb fd conn (recv_step K cb fd conn st))) conn
                  AND CO_FL_WAIT_L4_CONN K \<noteq> 0
        then (if fst (tcp_connect_probe cb conn
                        (fst (send_step K cb fd conn (recv_step K cb fd conn st)))) = 0
              then Goto_leave else Next)
               (snd (tcp_connect_probe cb conn
                       (fst (send_step K cb fd conn (recv_step K cb fd conn st)))),
                snd (send_step K cb fd conn (recv_step K cb fd conn st)) @
                  [Call Tcp_connect_probe
                     (get_flags (fst (send_step K cb fd conn (recv_step K cb fd conn st))) conn)
                     (fst (tcp_connect_probe cb conn
                             (fst (send_step K cb fd conn (recv_step K cb fd conn st)))))])
        else Next (send_step K cb fd conn (recv_step K cb fd conn st)))
   \<and> (handshake_loop K cb conn sta = Some (Next stb)
        \<longrightarrow> get_flags (fst stb) conn AND CO_FL_HANDSHAKE K = 0)
   \<and> (handshake_loop K cb conn sta = Some (Next stb) \<and>
       enter_data_phase K cb conn stb = Next st \<and>
       (data_phase K cb fd conn st = Goto_leave sl \<or> data_phase K cb fd conn st = Next sl)
       \<longrightarrow> process_handshake K cb fd conn sta = Some (leave K cb fd conn sl))
   \<and> (owner (fdtab s fd) = Some conn
        \<longrightarrow> conn_fd_handler K cb fd s = process_handshake K cb fd conn (s, []))
   \<and> (conn_fd_handler K cb fd s = Some res \<longrightarrow> recv_placed K False (snd (snd res)))"
  using data_phase_order[of st K cb fd conn] data_phase_recv_called[of st K cb fd conn]
    data_phase_send_called[of st K cb fd conn] data_phase_probe_called[of st K cb fd conn]
    data_phase_to_handshake[of K cb fd conn st] data_phase_to_leave[of K cb fd conn st]
    data_phase_send_before_handshake[of K cb fd conn st]
    process_handshake_again[of K cb conn sta stb st fd stc]
    conn_fd_handler_phase[of K cb fd s res]
    recv_step_eq[of K cb fd conn st] send_step_eq[of K cb fd conn sx]
    data_phase_eq[of K cb fd conn st] handshake_loop_next_clear[of K cb conn sta stb]
    process_handshake_data_leave[of K cb conn sta stb st fd sl]
    conn_fd_handler_owned[of s fd conn K cb]
    conn_fd_handler_recv_placed[of K cb fd s res]
  by blast


text \<open>The fourth scenario of the specification: input and output are reported, and the
  receive callback asks for a new handshake. The handshake is done before the send
  callback runs.\<close>

lemma run_renego:
  "conn_fd_handler hdr cb_renego 7 (s_at (Some 0) 0x05 0x00001000)
   = Some (0, (set_flags 0 0x00100002 (set_ev 7 0 (s_at (Some 0) 0x05 0x00001000)),
       [Call Conn_sock_stop_both 0x1000 0, Call App_recv 0x1000 0,
        Call (Conn_si_send_proxy 0x20) 0x20 1,
        Call Conn_sock_stop_both 0 0, Call App_recv 0 0, Call App_send 0 0,
        Call Conn_cond_update_polling 2 0, Call (Fd (Fd_want_recv 7)) 2 0]))"
  by (simp add: conn_fd_handler_def process_handshake.simps handshake_loop.simps
      handshake_body_def accept_proxy_step_def send_proxy_step_def
      enter_data_phase_def data_phase_def recv_step_def send_step_def notify_step_def
      leave_def conn_cond_update_polling_def conn_set_polling_def
      invoke_def invoke_void_def get_flags_def set_flags_def get_ev_def set_ev_def Let_def
      hdr_def cb_renego_def cb_proxy_def cb_quiet_def s_at_def fun_eq_iff)

lemma recv_renego:
  "recv_step hdr cb_renego 7 0 (s_at (Some 0) 0x05 0x00001000, [Call Conn_sock_stop_both 0x1000 0])
     = (set_flags 0 0x20 (s_at (Some 0) 0x05 0x00001000),
        [Call Conn_sock_stop_both 0x1000 0, Call App_recv 0x1000 0])"
  by (simp add: recv_step_def invoke_void_def get_flags_def get_ev_def
      hdr_def cb_renego_def cb_proxy_def cb_quiet_def s_at_def)

text \<open>Input is reported on a connection that notifies its stream interface, and the
  receive callback latches the error: the send callback is not called, and the cycle
  ends on the leave path.\<close>

lemma run_recv_err:
  "conn_fd_handler hdr cb_recv_err 7 (s_at (Some 0) 0x05 0x00000010)
   = Some (0, (set_flags 0 0x00100013 (set_ev 7 0 (s_at (Some 0) 0x05 0x00000010)),
       [Call Conn_sock_stop_both 0x10 0, Call App_recv 0x10 0, Call Conn_notify_si 0x11 0,
        Call Conn_cond_update_polling 0x13 0, Call (Fd (Fd_want_recv 7)) 0x13 0]))"
  by (simp add: conn_fd_handler_def process_handshake.simps handshake_loop.simps
      handshake_body_def accept_proxy_step_def send_proxy_step_def
      enter_data_phase_def data_phase_def recv_step_def send_step_def notify_step_def
      leave_def conn_cond_update_polling_def conn_set_polling_def
      invoke_def invoke_void_def get_flags_def set_flags_def get_ev_def set_ev_def Let_def
      hdr_def cb_recv_err_def cb_quiet_def s_at_def fun_eq_iff)

lemma enter_recv_err:
  "enter_data_phase hdr cb_recv_err 0 (s_at (Some 0) 0x05 0x00000010, [])
     = Next (s_at (Some 0) 0x05 0x00000010, [Call Conn_sock_stop_both 0x10 0])"
  by (simp add: enter_data_phase_def invoke_void_def get_flags_def Let_def
      hdr_def cb_recv_err_def cb_quiet_def s_at_def)

theorem data_phase_sequence_witness:
  "get_flags (fst (recv_step hdr cb_renego 7 0
       (s_at (Some 0) 0x05 0x00001000, [Call Conn_sock_stop_both 0x1000 0]))) 0
     AND CO_FL_ERROR hdr = 0 \<and>
   get_flags (fst (recv_step hdr cb_renego 7 0
       (s_at (Some 0) 0x05 0x00001000, [Call Conn_sock_stop_both 0x1000 0]))) 0
     AND CO_FL_HANDSHAKE hdr \<noteq> 0 \<and>
   data_phase hdr cb_renego 7 0 (s_at (Some 0) 0x05 0x00001000, [Call Conn_sock_stop_both 0x1000 0])
     = Goto_process_handshake (set_flags 0 0x20 (s_at (Some 0) 0x05 0x00001000),
        [Call Conn_sock_stop_both 0x1000 0, Call App_recv 0x1000 0]) \<and>
   App_send \<notin> what ` set (added
       (s_at (Some 0) 0x05 0x00001000, [Call Conn_sock_stop_both 0x1000 0])
       (ctl_arg (data_phase hdr cb_renego 7 0
          (s_at (Some 0) 0x05 0x00001000, [Call Conn_sock_stop_both 0x1000 0])))) \<and>
   handshake_loop hdr cb_renego 0 (s_at (Some 0) 0x05 0x00001000, [])
     = Some (Next (s_at (Some 0) 0x05 0x00001000, [])) \<and>
   enter_data_phase hdr cb_renego 0 (s_at (Some 0) 0x05 0x00001000, [])
     = Next (s_at (Some 0) 0x05 0x00001000, [Call Conn_sock_stop_both 0x1000 0]) \<and>
   process_handshake hdr cb_renego 7 0 (s_at (Some 0) 0x05 0x00001000, [])
     = process_handshake hdr cb_renego 7 0 (set_flags 0 0x20 (s_at (Some 0) 0x05 0x00001000),
        [Call Conn_sock_stop_both 0x1000 0, Call App_recv 0x1000 0]) \<and>
   conn_fd_handler hdr cb_renego 7 (s_at (Some 0) 0x05 0x00001000)
     = Some (0, (set_flags 0 0x00100002 (set_ev 7 0 (s_at (Some 0) 0x05 0x00001000)),
       [Call Conn_sock_stop_both 0x1000 0, Call App_recv 0x1000 0,
        Call (Conn_si_send_proxy 0x20) 0x20 1,
        Call Conn_sock_stop_both 0 0, Call App_recv 0 0, Call App_send 0 0,
        Call Conn_cond_update_polling 2 0, Call (Fd (Fd_want_recv 7)) 2 0])) \<and>
   list_all (phase_order hdr)
       [Call Conn_sock_stop_both 0x1000 0, Call App_recv 0x1000 0,
        Call (Conn_si_send_proxy 0x20) 0x20 1,
        Call Conn_sock_stop_both 0 0, Call App_recv 0 0, Call App_send 0 0,
        Call Conn_cond_update_polling 2 0, Call (Fd (Fd_want_recv 7)) 2 0] \<and>
   recv_placed hdr False
       [Call Conn_sock_stop_both 0x1000 0, Call App_recv 0x1000 0,
        Call (Conn_si_send_proxy 0x20) 0x20 1,
        Call Conn_sock_stop_both 0 0, Call App_recv 0 0, Call App_send 0 0,
        Call Conn_cond_update_polling 2 0, Call (Fd (Fd_want_recv 7)) 2 0] \<and>
   get_flags (s_at (Some 0) 0x05 0x00001000) 0 AND CO_FL_HANDSHAKE hdr = 0 \<and>
   owner (fdtab (s_at (Some 0) 0x05 0x00000010) 7) = Some 0 \<and>
   recv_step hdr cb_recv_err 7 0 (s_at (Some 0) 0x05 0x00000010, [Call Conn_sock_stop_both 0x10 0])
     = (set_flags 0 0x11 (s_at (Some 0) 0x05 0x00000010),
        [Call Conn_sock_stop_both 0x10 0, Call App_recv 0x10 0]) \<and>
   data_phase hdr cb_recv_err 7 0 (s_at (Some 0) 0x05 0x00000010, [Call Conn_sock_stop_both 0x10 0])
     = Goto_leave (set_flags 0 0x11 (s_at (Some 0) 0x05 0x00000010),
        [Call Conn_sock_stop_both 0x10 0, Call App_recv 0x10 0]) \<and>
   conn_fd_handler hdr cb_recv_err 7 (s_at (Some 0) 0x05 0x00000010)
     = Some (leave hdr cb_recv_err 7 0 (set_flags 0 0x11 (s_at (Some 0) 0x05 0x00000010),
        [Call Conn_sock_stop_both 0x10 0, Call App_recv 0x10 0])) \<and>
   leave hdr cb_recv_err 7 0 (set_flags 0 0x11 (s_at (Some 0) 0x05 0x00000010),
        [Call Conn_sock_stop_both 0x10 0, Call App_recv 0x10 0])
     = (0, (set_flags 0 0x00100013 (set_ev 7 0 (s_at (Some 0) 0x05 0x00000010)),
       [Call Conn_sock_stop_both 0x10 0, Call App_recv 0x10 0, Call Conn_notify_si 0x11 0,
        Call Conn_cond_update_polling 0x13 0, Call (Fd (Fd_want_recv 7)) 0x13 0])) \<and>
   send_step hdr cb_send_err 7 0 (s_at (Some 0) 0x04 0, [])
     = (set_flags 0 0x01 (s_at (Some 0) 0x04 0), [Call App_send 0 0]) \<and>
   data_phase hdr cb_send_err 7 0 (s_at (Some 0) 0x04 0, [])
     = Goto_leave (set_flags 0 0x01 (s_at (Some 0) 0x04 0), [Call App_send 0 0]) \<and>
   data_phase hdr cb_no_conn 7 0 (s_at (Some 0) 0x05 0x04, [])
     = Goto_leave (s_at (Some 0) 0x05 0x04,
         [Call App_recv 0x04 0, Call App_send 0x04 0, Call Tcp_connect_probe 0x04 0])"
proof -
  let ?sa = "(s_at (Some 0) 0x05 0x00001000, []::entry list)"
  let ?st = "(s_at (Some 0) 0x05 0x00001000, [Call Conn_sock_stop_both 0x1000 0])"
  let ?sc = "(set_flags 0 0x20 (s_at (Some 0) 0x05 0x00001000),
        [Call Conn_sock_stop_both 0x1000 0, Call App_recv 0x1000 0])"
  let ?tr = "[Call Conn_sock_stop_both 0x1000 0, Call App_recv 0x1000 0,
        Call (Conn_si_send_proxy 0x20) 0x20 1,
        Call Conn_sock_stop_both 0 0, Call App_recv 0 0, Call App_send 0 0,
        Call Conn_cond_update_polling 2 0, Call (Fd (Fd_want_recv 7)) 2 0]"
  let ?ea = "(s_at (Some 0) 0x05 0x00000010, []::entry list)"
  let ?eb = "(s_at (Some 0) 0x05 0x00000010, [Call Conn_sock_stop_both 0x10 0])"
  let ?ec = "(set_flags 0 0x11 (s_at (Some 0) 0x05 0x00000010),
        [Call Conn_sock_stop_both 0x10 0, Call App_recv 0x10 0])"
  let ?x = "(s_at (Some 0) 0x04 0, []::entry list)"
  let ?y = "(set_flags 0 0x01 (s_at (Some 0) 0x04 0), [Call App_send 0 0])"
  let ?w = "(s_at (Some 0) 0x05 0x04, []::entry list)"
  have f: "get_flags (fst (recv_step hdr cb_renego 7 0 ?st)) 0 AND CO_FL_ERROR hdr = 0"
    "get_flags (fst (recv_step hdr cb_renego 7 0 ?st)) 0 AND CO_FL_HANDSHAKE hdr \<noteq> 0"
    unfolding recv_renego by (simp_all add: hdr_def)
  note t = data_phase_sequence[where K = hdr and cb = cb_renego and fd = 7 and conn = 0
      and st = ?st and s = "s_at (Some 0) 0x05 0x00001000" and sta = ?sa and stb = ?sa
      and stc = ?sc and res = "(0, (set_flags 0 0x00100002 (set_ev 7 0 (s_at (Some 0) 0x05 0x00001000)), ?tr))"]
  note t_send = t[THEN conjunct2, THEN conjunct2, THEN conjunct1]
  note t_back = t[THEN conjunct2, THEN conjunct2, THEN conjunct2, THEN conjunct2,
      THEN conjunct2, THEN conjunct2, THEN conjunct1]
  note t_again = t[THEN conjunct2, THEN conjunct2, THEN conjunct2, THEN conjunct2,
      THEN conjunct2, THEN conjunct2, THEN conjunct2, THEN conjunct1]
  note t_phase = t[THEN conjunct2, THEN conjunct2, THEN conjunct2, THEN conjunct2,
      THEN conjunct2, THEN conjunct2, THEN conjunct2, THEN conjunct2, THEN conjunct1]
  note t_clear = t[THEN conjunct2, THEN conjunct2, THEN conjunct2, THEN conjunct2,
      THEN conjunct2, THEN conjunct2, THEN conjunct2, THEN conjunct2, THEN conjunct2,
      THEN conjunct2, THEN conjunct2, THEN conjunct2, THEN conjunct1]
  note t_placed = t[THEN conjunct2, THEN conjunct2, THEN conjunct2, THEN conjunct2,
      THEN conjunct2, THEN conjunct2, THEN conjunct2, THEN conjunct2, THEN conjunct2,
      THEN conjunct2, THEN conjunct2, THEN conjunct2, THEN conjunct2, THEN conjunct2,
      THEN conjunct2]
  have a: "data_phase hdr cb_renego 7 0 ?st = Goto_process_handshake ?sc"
    using t_back f unfolding recv_renego by blast
  have b: "App_send \<notin> what ` set (added ?st (ctl_arg (data_phase hdr cb_renego 7 0 ?st)))"
    using t_send f unfolding data_ok_def by blast
  have l: "handshake_loop hdr cb_renego 0 ?sa = Some (Next ?sa)"
    by (rule handshake_loop_done) (simp add: get_flags_def s_at_def hdr_def)
  have e: "enter_data_phase hdr cb_renego 0 ?sa = Next ?st"
    by (simp add: enter_data_phase_def invoke_void_def get_flags_def Let_def
        hdr_def cb_renego_def cb_proxy_def cb_quiet_def s_at_def)
  have p: "process_handshake hdr cb_renego 7 0 ?sa = process_handshake hdr cb_renego 7 0 ?sc"
    using t_again l e a by blast
  have c: "list_all (phase_order hdr) ?tr"
    using t_phase run_renego by simp
  have d: "recv_placed hdr False ?tr"
    using t_placed run_renego by simp
  have "get_flags (fst ?sa) 0 AND CO_FL_HANDSHAKE hdr = 0"
    using t_clear l by blast
  then have g: "get_flags (s_at (Some 0) 0x05 0x00001000) 0 AND CO_FL_HANDSHAKE hdr = 0"
    by simp
  note u = data_phase_sequence[where K = hdr and cb = cb_recv_err and fd = 7 and conn = 0
      and st = ?eb and s = "s_at (Some 0) 0x05 0x00000010" and sta = ?ea and stb = ?ea
      and sl = ?ec]
  note u_recv = u[THEN conjunct2, THEN conjunct2, THEN conjunct2, THEN conjunct2,
      THEN conjunct2, THEN conjunct2, THEN conjunct2, THEN conjunct2, THEN conjunct2,
      THEN conjunct1]
  note u_data = u[THEN conjunct2, THEN conjunct2, THEN conjunct2, THEN conjunct2,
      THEN conjunct2, THEN conjunct2, THEN conjunct2, THEN conjunct2, THEN conjunct2,
      THEN conjunct2, THEN conjunct2, THEN conjunct1]
  note u_leave = u[THEN conjunct2, THEN conjunct2, THEN conjunct2, THEN conjunct2,
      THEN conjunct2, THEN conjunct2, THEN conjunct2, THEN conjunct2, THEN conjunct2,
      THEN conjunct2, THEN conjunct2, THEN conjunct2, THEN conjunct2, THEN conjunct1]
  note u_owned = u[THEN conjunct2, THEN conjunct2, THEN conjunct2, THEN conjunct2,
      THEN conjunct2, THEN conjunct2, THEN conjunct2, THEN conjunct2, THEN conjunct2,
      THEN conjunct2, THEN conjunct2, THEN conjunct2, THEN conjunct2, THEN conjunct2,
      THEN conjunct1]
  have o: "owner (fdtab (s_at (Some 0) 0x05 0x00000010) 7) = Some 0"
    by (simp add: s_at_def)
  have ur: "recv_step hdr cb_recv_err 7 0 ?eb = ?ec"
    using u_recv
    by (simp add: get_flags_def get_ev_def hdr_def cb_recv_err_def cb_quiet_def s_at_def)
  have ud: "data_phase hdr cb_recv_err 7 0 ?eb = Goto_leave ?ec"
    using u_data unfolding ur by (simp add: hdr_def)
  have ul: "handshake_loop hdr cb_recv_err 0 ?ea = Some (Next ?ea)"
    by (rule handshake_loop_done) (simp add: get_flags_def s_at_def hdr_def)
  have "process_handshake hdr cb_recv_err 7 0 ?ea = Some (leave hdr cb_recv_err 7 0 ?ec)"
    using u_leave ul enter_recv_err ud by blast
  moreover have "conn_fd_handler hdr cb_recv_err 7 (s_at (Some 0) 0x05 0x00000010)
      = process_handshake hdr cb_recv_err 7 0 ?ea"
    using u_owned o by blast
  ultimately have uh: "conn_fd_handler hdr cb_recv_err 7 (s_at (Some 0) 0x05 0x00000010)
      = Some (leave hdr cb_recv_err 7 0 ?ec)" by simp
  have uv: "leave hdr cb_recv_err 7 0 ?ec
     = (0, (set_flags 0 0x00100013 (set_ev 7 0 (s_at (Some 0) 0x05 0x00000010)),
       [Call Conn_sock_stop_both 0x10 0, Call App_recv 0x10 0, Call Conn_notify_si 0x11 0,
        Call Conn_cond_update_polling 0x13 0, Call (Fd (Fd_want_recv 7)) 0x13 0]))"
    using uh run_recv_err by simp
  note v = data_phase_sequence[where K = hdr and cb = cb_send_err and fd = 7 and conn = 0
      and st = ?x and sx = ?x]
  note v_recv = v[THEN conjunct2, THEN conjunct2, THEN conjunct2, THEN conjunct2,
      THEN conjunct2, THEN conjunct2, THEN conjunct2, THEN conjunct2, THEN conjunct2,
      THEN conjunct1]
  note v_send = v[THEN conjunct2, THEN conjunct2, THEN conjunct2, THEN conjunct2,
      THEN conjunct2, THEN conjunct2, THEN conjunct2, THEN conjunct2, THEN conjunct2,
      THEN conjunct2, THEN conjunct1]
  note v_data = v[THEN conjunct2, THEN conjunct2, THEN conjunct2, THEN conjunct2,
      THEN conjunct2, THEN conjunct2, THEN conjunct2, THEN conjunct2, THEN conjunct2,
      THEN conjunct2, THEN conjunct2, THEN conjunct1]
  have vs: "send_step hdr cb_send_err 7 0 ?x = ?y"
    using v_send
    by (simp add: get_flags_def get_ev_def hdr_def cb_send_err_def cb_quiet_def s_at_def)
  have vr: "recv_step hdr cb_send_err 7 0 ?x = ?x"
    using v_recv by (simp add: get_ev_def hdr_def s_at_def)
  have vd: "data_phase hdr cb_send_err 7 0 ?x = Goto_leave ?y"
    using v_data unfolding vr vs by (simp add: get_flags_def set_flags_def s_at_def hdr_def)
  note w = data_phase_sequence[where K = hdr and cb = cb_no_conn and fd = 7 and conn = 0
      and st = ?w]
  note w_data = w[THEN conjunct2, THEN conjunct2, THEN conjunct2, THEN conjunct2,
      THEN conjunct2, THEN conjunct2, THEN conjunct2, THEN conjunct2, THEN conjunct2,
      THEN conjunct2, THEN conjunct2, THEN conjunct1]
  have wd: "data_phase hdr cb_no_conn 7 0 ?w = Goto_leave
      (s_at (Some 0) 0x05 0x04,
         [Call App_recv 0x04 0, Call App_send 0x04 0, Call Tcp_connect_probe 0x04 0])"
    using w_data
    by (simp add: recv_step_def send_step_def invoke_void_def get_flags_def get_ev_def
        hdr_def cb_no_conn_def cb_quiet_def s_at_def)
  from f a b l e p c d g o ur ud uh uv vs vd wd run_renego show ?thesis by blast
qed

lemma keeps_connectedD:
  assumes "keeps_connected K cb"
  shows "get_flags (snd (conn_recv_proxy cb c f s)) p AND CO_FL_CONNECTED K
           = get_flags s p AND CO_FL_CONNECTED K"
    and "get_flags (snd (conn_si_send_proxy cb c f s)) p AND CO_FL_CONNECTED K
           = get_flags s p AND CO_FL_CONNECTED K"
    and "get_flags (conn_sock_stop_both cb c s) p AND CO_FL_CONNECTED K
           = get_flags s p AND CO_FL_CONNECTED K"
    and "get_flags (snd (conn_session_complete cb c f s)) p AND CO_FL_CONNECTED K
           = get_flags s p AND CO_FL_CONNECTED K"
    and "get_flags (app_cb_recv cb c s) p AND CO_FL_CONNECTED K
           = get_flags s p AND CO_FL_CONNECTED K"
    and "get_flags (app_cb_send cb c s) p AND CO_FL_CONNECTED K
           = get_flags s p AND CO_FL_CONNECTED K"
    and "get_flags (snd (tcp_connect_probe cb c s)) p AND CO_FL_CONNECTED K
           = get_flags s p AND CO_FL_CONNECTED K"
    and "get_flags (conn_notify_si cb c s) p AND CO_FL_CONNECTED K
           = get_flags s p AND CO_FL_CONNECTED K"
  using assms unfolding keeps_connected_def by simp_all

lemma handshake_body_connected:
  assumes "keeps_connected K cb"
  shows "get_flags (fst (ctl_arg (handshake_body K cb conn st))) p AND CO_FL_CONNECTED K
           = get_flags (fst st) p AND CO_FL_CONNECTED K"
  by (simp add: handshake_body_def accept_proxy_step_def send_proxy_step_def Let_def
      invoke_simps keeps_connectedD[OF assms])

lemma enter_data_phase_connected:
  assumes "keeps_connected K cb"
  shows "get_flags (fst (ctl_arg (enter_data_phase K cb conn st))) p AND CO_FL_CONNECTED K
           = get_flags (fst st) p AND CO_FL_CONNECTED K"
  by (simp add: enter_data_phase_def Let_def invoke_simps invoke_void_simps
      keeps_connectedD[OF assms])

lemma data_phase_connected:
  assumes "keeps_connected K cb"
  shows "get_flags (fst (ctl_arg (data_phase K cb fd conn st))) p AND CO_FL_CONNECTED K
           = get_flags (fst st) p AND CO_FL_CONNECTED K"
  by (simp add: data_phase_def recv_step_def send_step_def Let_def invoke_simps invoke_void_simps
      keeps_connectedD[OF assms])

lemma notify_step_connected:
  assumes "keeps_connected K cb"
  shows "get_flags (fst (notify_step K cb conn st)) p AND CO_FL_CONNECTED K
           = get_flags (fst st) p AND CO_FL_CONNECTED K"
  by (simp add: notify_step_def invoke_void_simps keeps_connectedD[OF assms])

lemma outside_curr:
  fixes f g c m :: "32 word"
  assumes "f AND NOT m = g AND NOT m" "c AND m = 0"
  shows "f AND c = g AND c"
proof -
  have "c AND NOT m = c" using assms(2)
    by (auto simp: bit_eq_iff bit_and_iff bit_not_iff)
  then show ?thesis using mask_sub[OF assms(1)] by simp
qed

lemma cond_update_connected:
  assumes "CO_FL_CONNECTED K AND curr_mask K = 0"
  shows "get_flags (fst (conn_cond_update_polling K cb conn st)) p AND CO_FL_CONNECTED K
           = get_flags (fst st) p AND CO_FL_CONNECTED K"
proof -
  have h: "flags (snd (conn_set_polling K c new)) AND CO_FL_CONNECTED K = flags c AND CO_FL_CONNECTED K"
    for c new
    using outside_curr[OF conn_set_polling_other assms] .
  show ?thesis
    unfolding cond_update_flags by (cases "p = conn") (simp_all add: get_flags_def h)
qed

text \<open>What the leave path does to the established bit of a connection.\<close>

lemma leave_connected:
  assumes k: "keeps_connected K cb" and d: "CO_FL_CONNECTED K AND curr_mask K = 0"
  shows "get_flags (fst (snd (leave K cb fd conn st))) p AND CO_FL_CONNECTED K
           = get_flags (fst st) p AND CO_FL_CONNECTED K
     \<or> (p = conn \<and> \<not> embryonic_error K (get_flags (fst st) conn) \<and>
         get_flags (fst (notify_step K cb conn st)) conn AND
            (CO_FL_WAIT_L4_CONN K OR CO_FL_WAIT_L6_CONN K OR CO_FL_CONNECTED K) = 0 \<and>
         get_flags (fst st) p AND CO_FL_CONNECTED K = 0 \<and>
         get_flags (fst (snd (leave K cb fd conn st))) p AND CO_FL_CONNECTED K = CO_FL_CONNECTED K)"
proof (cases "embryonic_error K (get_flags (fst st) conn)")
  case True
  then show ?thesis by (simp add: leave_abort keeps_connectedD[OF k])
next
  case False
  let ?n = "notify_step K cb conn st"
  show ?thesis
  proof (cases "p = conn \<and> get_flags (fst ?n) conn AND
            (CO_FL_WAIT_L4_CONN K OR CO_FL_WAIT_L6_CONN K OR CO_FL_CONNECTED K) = 0")
    case set: True
    then have z: "get_flags (fst ?n) conn AND CO_FL_CONNECTED K = 0"
      by (auto simp: bit_eq_iff bit_and_iff bit_or_iff)
    with notify_step_connected[OF k, of conn st conn]
    have z0: "get_flags (fst st) conn AND CO_FL_CONNECTED K = 0" by simp
    have "get_flags (fst (snd (leave K cb fd conn st))) conn AND CO_FL_CONNECTED K
        = (get_flags (fst ?n) conn OR CO_FL_CONNECTED K) AND CO_FL_CONNECTED K"
      unfolding leave_normal[OF False] using set
      by (simp add: cond_update_connected[OF d])
    also have "\<dots> = CO_FL_CONNECTED K"
      by (auto simp: bit_eq_iff bit_and_iff bit_or_iff)
    finally show ?thesis using set False z0 by simp
  next
    case keep: False
    have "get_flags (fst (snd (leave K cb fd conn st))) p AND CO_FL_CONNECTED K
        = get_flags (fst ?n) p AND CO_FL_CONNECTED K"
      unfolding leave_normal[OF False] using keep
      by (auto simp add: cond_update_connected[OF d])
    then show ?thesis by (simp add: notify_step_connected[OF k])
  qed
qed

text \<open>What a whole cycle does to it.\<close>

lemma conn_fd_handler_connected:
  assumes k: "keeps_connected K cb" and d: "CO_FL_CONNECTED K AND curr_mask K = 0"
    and run: "conn_fd_handler K cb fd s = Some res"
  shows "get_flags (fst (snd res)) p AND CO_FL_CONNECTED K = get_flags s p AND CO_FL_CONNECTED K
     \<or> (owner (fdtab s fd) = Some p \<and> get_flags s p AND CO_FL_CONNECTED K = 0 \<and>
         get_flags (fst (snd res)) p AND CO_FL_CONNECTED K = CO_FL_CONNECTED K \<and>
         (\<exists>st'. res = leave K cb fd p st' \<and> \<not> embryonic_error K (get_flags (fst st') p) \<and>
            get_flags (fst (notify_step K cb p st')) p AND
              (CO_FL_WAIT_L4_CONN K OR CO_FL_WAIT_L6_CONN K OR CO_FL_CONNECTED K) = 0))"
proof (cases "owner (fdtab s fd)")
  case None
  with run show ?thesis by (auto simp add: conn_fd_handler_def)
next
  case (Some conn)
  from Some run have r: "process_handshake K cb fd conn (s, []) = Some res"
    by (simp add: conn_fd_handler_def)
  have "\<exists>st'. same_connected K p (s, []) st' \<and> cycle_end K cb fd conn st' res"
  proof (rule process_handshake_rel[where R = "same_connected K p", OF _ _ _ _ _ r])
    show "\<And>a. same_connected K p a a" by (simp add: same_connected_def)
    show "\<And>a b c. same_connected K p a b \<Longrightarrow> same_connected K p b c \<Longrightarrow> same_connected K p a c"
      by (simp add: same_connected_def)
    show "\<And>st. get_flags (fst st) conn AND CO_FL_HANDSHAKE K \<noteq> 0
            \<Longrightarrow> same_connected K p st (ctl_arg (handshake_body K cb conn st))"
      unfolding same_connected_def by (rule handshake_body_connected[OF k])
    show "\<And>st. get_flags (fst st) conn AND CO_FL_HANDSHAKE K = 0
            \<Longrightarrow> same_connected K p st (ctl_arg (enter_data_phase K cb conn st))"
      unfolding same_connected_def by (rule enter_data_phase_connected[OF k])
    show "\<And>st. same_connected K p st (ctl_arg (data_phase K cb fd conn st))"
      unfolding same_connected_def by (rule data_phase_connected[OF k])
  qed
  then obtain st' where st': "get_flags (fst st') p AND CO_FL_CONNECTED K
                       = get_flags s p AND CO_FL_CONNECTED K" "cycle_end K cb fd conn st' res"
    unfolding same_connected_def by auto
  from st'(2) show ?thesis
    unfolding cycle_end_def
  proof (elim disjE conjE)
    assume l: "res = leave K cb fd conn st'"
    from leave_connected[OF k d, of fd conn st' p] show ?thesis
    proof (elim disjE conjE)
      assume "get_flags (fst (snd (leave K cb fd conn st'))) p AND CO_FL_CONNECTED K
                = get_flags (fst st') p AND CO_FL_CONNECTED K"
      with l st'(1) show ?thesis by simp
    next
      assume a: "p = conn" "\<not> embryonic_error K (get_flags (fst st') conn)"
        "get_flags (fst (notify_step K cb conn st')) conn AND
            (CO_FL_WAIT_L4_CONN K OR CO_FL_WAIT_L6_CONN K OR CO_FL_CONNECTED K) = 0"
        "get_flags (fst st') p AND CO_FL_CONNECTED K = 0"
        "get_flags (fst (snd (leave K cb fd conn st'))) p AND CO_FL_CONNECTED K = CO_FL_CONNECTED K"
      from a(1,4) st'(1) have "get_flags s p AND CO_FL_CONNECTED K = 0" by simp
      moreover from a(5) l have "get_flags (fst (snd res)) p AND CO_FL_CONNECTED K = CO_FL_CONNECTED K"
        by simp
      moreover from Some a(1) have "owner (fdtab s fd) = Some p" by simp
      moreover from l a(1,2,3) have "\<exists>st'. res = leave K cb fd p st' \<and>
            \<not> embryonic_error K (get_flags (fst st') p) \<and>
            get_flags (fst (notify_step K cb p st')) p AND
              (CO_FL_WAIT_L4_CONN K OR CO_FL_WAIT_L6_CONN K OR CO_FL_CONNECTED K) = 0"
        by blast
      ultimately show ?thesis by blast
    qed
  next
    assume "res = (0, st')"
    with st'(1) show ?thesis by simp
  qed
qed

lemma connected_set_ev [simp]: "connected K p (set_ev fd e s) = connected K p s"
  by (simp add: connected_def)

lemma conn_fd_handler_stays_connected:
  assumes "keeps_connected K cb" "CO_FL_CONNECTED K AND curr_mask K = 0"
    "conn_fd_handler K cb fd s = Some res" "connected K p s"
  shows "connected K p (fst (snd res))"
  using conn_fd_handler_connected[OF assms(1-3), of p] assms(4)
  by (auto simp: connected_def)

text \<open>Over a sequence of cycles the bit is first clear and then set.\<close>

lemma run_cycles_connected:
  assumes k: "keeps_connected K cb" and d: "CO_FL_CONNECTED K AND curr_mask K = 0"
  shows "run_cycles K cb fd es s = Some ss \<Longrightarrow>
     \<exists>a b. map (connected K p) (s # ss) = replicate a False @ replicate b True"
proof (induction es arbitrary: s ss)
  case Nil
  then have "ss = []" by simp
  show ?case
  proof (cases "connected K p s")
    case True
    then have "map (connected K p) (s # ss) = replicate 0 False @ replicate 1 True"
      by (simp add: \<open>ss = []\<close>)
    then show ?thesis by blast
  next
    case False
    then have "map (connected K p) (s # ss) = replicate 1 False @ replicate 0 True"
      by (simp add: \<open>ss = []\<close>)
    then show ?thesis by blast
  qed
next
  case (Cons e es)
  from Cons.prems obtain res ss' where
    h: "conn_fd_handler K cb fd (set_ev fd e s) = Some res" and
    r: "run_cycles K cb fd es (fst (snd res)) = Some ss'" and
    ss: "ss = fst (snd res) # ss'"
    by (auto split: option.splits)
  from Cons.IH[OF r] obtain a b where
    ab: "map (connected K p) (fst (snd res) # ss') = replicate a False @ replicate b True"
    by blast
  show ?case
  proof (cases "connected K p s")
    case False
    then have "map (connected K p) (s # ss) = replicate (Suc a) False @ replicate b True"
      using ab ss by simp
    then show ?thesis by blast
  next
    case True
    then have "connected K p (set_ev fd e s)" by simp
    from conn_fd_handler_stays_connected[OF k d h this]
    have c: "connected K p (fst (snd res))" .
    have "a = 0"
    proof (cases a)
      case (Suc n)
      with ab c show ?thesis by simp
    qed simp
    with ab True ss have "map (connected K p) (s # ss) = replicate 0 False @ replicate (Suc b) True"
      by simp
    then show ?thesis by blast
  qed
qed


text \<open>
  C8. Let the collaborators leave \<^verbatim>\<open>CO_FL_CONNECTED\<close> alone, and let it lie outside
  the four current-interest bits. Then the leave path changes the bit of a connection
  only by setting it on the connection it handles, when the error and the pending
  session are not both set and, after the notification, none of
  \<^verbatim>\<open>CO_FL_WAIT_L4_CONN\<close>, \<^verbatim>\<open>CO_FL_WAIT_L6_CONN\<close>, \<^verbatim>\<open>CO_FL_CONNECTED\<close> is set. A
  cycle changes the bit only in this way, on the owner of the descriptor: a bit that is
  set stays as it is. Over any sequence of cycles the bit is clear up to some cycle and
  set from then on, so it is set at most once and never cleared.
\<close>

theorem connected_set_once:
  assumes "keeps_connected K cb" and "CO_FL_CONNECTED K AND curr_mask K = 0"
  shows "(get_flags (fst (snd (leave K cb fd conn st))) p AND CO_FL_CONNECTED K
            = get_flags (fst st) p AND CO_FL_CONNECTED K
          \<or> (p = conn \<and> \<not> embryonic_error K (get_flags (fst st) conn) \<and>
              get_flags (fst (notify_step K cb conn st)) conn AND
                 (CO_FL_WAIT_L4_CONN K OR CO_FL_WAIT_L6_CONN K OR CO_FL_CONNECTED K) = 0 \<and>
              get_flags (fst st) p AND CO_FL_CONNECTED K = 0 \<and>
              get_flags (fst (snd (leave K cb fd conn st))) p AND CO_FL_CONNECTED K
                = CO_FL_CONNECTED K))
     \<and> (conn_fd_handler K cb fd s = Some res \<longrightarrow>
          get_flags (fst (snd res)) p AND CO_FL_CONNECTED K = get_flags s p AND CO_FL_CONNECTED K
          \<or> (owner (fdtab s fd) = Some p \<and> get_flags s p AND CO_FL_CONNECTED K = 0 \<and>
              get_flags (fst (snd res)) p AND CO_FL_CONNECTED K = CO_FL_CONNECTED K \<and>
              (\<exists>st'. res = leave K cb fd p st' \<and> \<not> embryonic_error K (get_flags (fst st') p) \<and>
                 get_flags (fst (notify_step K cb p st')) p AND
                   (CO_FL_WAIT_L4_CONN K OR CO_FL_WAIT_L6_CONN K OR CO_FL_CONNECTED K) = 0)))
     \<and> (conn_fd_handler K cb fd s = Some res \<longrightarrow> connected K p s
          \<longrightarrow> connected K p (fst (snd res)))
     \<and> (run_cycles K cb fd es s = Some ss \<longrightarrow>
          (\<exists>a b. map (connected K p) (s # ss) = replicate a False @ replicate b True))"
  using leave_connected[OF assms, of fd conn st p]
    conn_fd_handler_connected[OF assms, of fd s res p]
    conn_fd_handler_stays_connected[OF assms, of fd s res p]
    run_cycles_connected[OF assms, of fd es s ss p]
  by blast

text \<open>Two cycles on an idle connection: the first marks it established, the second
  leaves it so.\<close>

lemma keeps_connected_quiet: "keeps_connected hdr cb_quiet"
  by (simp add: keeps_connected_def cb_quiet_def)

lemma run_quiet_again:
  "conn_fd_handler hdr cb_quiet 7
       (set_ev 7 0x01 (set_flags 0 0x00100002 (set_ev 7 0 (s_at (Some 0) 0x05 0))))
   = Some (0, (set_ev 7 0 (set_flags 0 0x00100002 (set_ev 7 0 (s_at (Some 0) 0x05 0))),
       [Call Conn_sock_stop_both 0x00100002 0, Call App_recv 0x00100002 0,
        Call Conn_cond_update_polling 0x00100002 0]))"
  by (simp add: conn_fd_handler_def process_handshake.simps handshake_loop.simps
      enter_data_phase_def data_phase_def recv_step_def send_step_def notify_step_def
      leave_def conn_cond_update_polling_def conn_set_polling_def
      invoke_def invoke_void_def get_flags_def set_flags_def get_ev_def set_ev_def Let_def
      hdr_def cb_quiet_def s_at_def fun_eq_iff)

lemma run_cycles_quiet:
  "run_cycles hdr cb_quiet 7 [0x05, 0x01] (s_at (Some 0) 0x05 0)
     = Some [set_flags 0 0x00100002 (set_ev 7 0 (s_at (Some 0) 0x05 0)),
             set_ev 7 0 (set_flags 0 0x00100002 (set_ev 7 0 (s_at (Some 0) 0x05 0)))]"
proof -
  have "set_ev 7 0x05 (s_at (Some 0) 0x05 0) = s_at (Some 0) 0x05 0"
    by (simp add: set_ev_def s_at_def fun_eq_iff)
  then show ?thesis by (simp add: run_quiet run_quiet_again)
qed

theorem connected_set_once_witness:
  "keeps_connected hdr cb_quiet \<and> CO_FL_CONNECTED hdr AND curr_mask hdr = 0 \<and>
   run_cycles hdr cb_quiet 7 [0x05, 0x01] (s_at (Some 0) 0x05 0)
     = Some [set_flags 0 0x00100002 (set_ev 7 0 (s_at (Some 0) 0x05 0)),
             set_ev 7 0 (set_flags 0 0x00100002 (set_ev 7 0 (s_at (Some 0) 0x05 0)))] \<and>
   map (connected hdr 0)
     [s_at (Some 0) 0x05 0,
      set_flags 0 0x00100002 (set_ev 7 0 (s_at (Some 0) 0x05 0)),
      set_ev 7 0 (set_flags 0 0x00100002 (set_ev 7 0 (s_at (Some 0) 0x05 0)))]
     = [False, True, True] \<and>
   (\<exists>a b. map (connected hdr 0)
     [s_at (Some 0) 0x05 0,
      set_flags 0 0x00100002 (set_ev 7 0 (s_at (Some 0) 0x05 0)),
      set_ev 7 0 (set_flags 0 0x00100002 (set_ev 7 0 (s_at (Some 0) 0x05 0)))]
     = replicate a False @ replicate b True) \<and>
   (\<exists>st'. (0, (set_flags 0 0x00100002 (set_ev 7 0 (s_at (Some 0) 0x05 0)),
       [Call Conn_sock_stop_both 0 0, Call App_recv 0 0, Call App_send 0 0,
        Call Conn_cond_update_polling 2 0, Call (Fd (Fd_want_recv 7)) 2 0]))
        = leave hdr cb_quiet 7 0 st' \<and>
      get_flags (fst (notify_step hdr cb_quiet 0 st')) 0 AND
        (CO_FL_WAIT_L4_CONN hdr OR CO_FL_WAIT_L6_CONN hdr OR CO_FL_CONNECTED hdr) = 0) \<and>
   connected hdr 0 (set_ev 7 0 (set_flags 0 0x00100002 (set_ev 7 0 (s_at (Some 0) 0x05 0))))"
proof -
  let ?s0 = "s_at (Some 0) 0x05 0"
  let ?s1 = "set_flags 0 0x00100002 (set_ev 7 0 (s_at (Some 0) 0x05 0))"
  let ?s2 = "set_ev 7 0 (set_flags 0 0x00100002 (set_ev 7 0 (s_at (Some 0) 0x05 0)))"
  let ?r1 = "(0, (?s1, [Call Conn_sock_stop_both 0 0, Call App_recv 0 0, Call App_send 0 0,
        Call Conn_cond_update_polling 2 0, Call (Fd (Fd_want_recv 7)) 2 0]))"
  let ?r2 = "(0, (?s2, [Call Conn_sock_stop_both 0x00100002 0, Call App_recv 0x00100002 0,
        Call Conn_cond_update_polling 0x00100002 0]))"
  have d: "CO_FL_CONNECTED hdr AND curr_mask hdr = 0"
    by (simp add: hdr_def curr_mask_def)
  have m: "map (connected hdr 0) [?s0, ?s1, ?s2] = [False, True, True]"
    by (simp add: connected_def) (simp add: get_flags_def s_at_def hdr_def)
  note t = connected_set_once[OF keeps_connected_quiet d]
  have 1: "\<exists>a b. map (connected hdr 0) [?s0, ?s1, ?s2] = replicate a False @ replicate b True"
    using t[where fd = 7 and es = "[0x05, 0x01]" and s = ?s0 and p = 0 and ss = "[?s1, ?s2]"]
      run_cycles_quiet by blast
  have ne: "get_flags (fst (snd ?r1)) 0 AND CO_FL_CONNECTED hdr
              \<noteq> get_flags ?s0 0 AND CO_FL_CONNECTED hdr"
    by simp (simp add: get_flags_def s_at_def hdr_def)
  have 2: "\<exists>st'. ?r1 = leave hdr cb_quiet 7 0 st' \<and>
      get_flags (fst (notify_step hdr cb_quiet 0 st')) 0 AND
        (CO_FL_WAIT_L4_CONN hdr OR CO_FL_WAIT_L6_CONN hdr OR CO_FL_CONNECTED hdr) = 0"
    using t[where fd = 7 and s = ?s0 and p = 0 and res = ?r1] run_quiet ne by blast
  have c1: "connected hdr 0 (set_ev 7 0x01 ?s1)" using m by simp
  have 3: "connected hdr 0 ?s2"
    using t[where fd = 7 and s = "set_ev 7 0x01 ?s1" and p = 0 and res = ?r2]
      run_quiet_again c1 by simp
  from keeps_connected_quiet d run_cycles_quiet m 1 2 3 show ?thesis by blast
qed

end
